theory Spec2Isabelle
  imports Main "HOL-Library.AList"
begin

section \<open>Kaizen Blitz: entity model, progress aggregation, repository\<close>

text \<open>
  A shallow embedding of the persistence and domain layer of the Kaizen Blitz desktop
  application (Python, SQLAlchemy): the model classes of \<^verbatim>\<open>models/\<close>, the generic
  repository of \<^verbatim>\<open>database/repositories/base_repository.py\<close> and the
  \<^verbatim>\<open>mark_complete\<close> handlers of the three artifact views.
\<close>

subsection \<open>Python strings\<close>

text \<open>
  A Python \<^verbatim>\<open>str\<close> is a sequence of code points below \<^verbatim>\<open>0x110000\<close>; lone surrogates
  are legal elements. The model keeps the code points as natural numbers, so that the
  \<^verbatim>\<open>\uXXXX\<close> escapes of the \<^verbatim>\<open>json\<close> module can be followed exactly.
  \<open>str\<close> turns an ASCII literal into such a sequence.
\<close>

type_synonym pystr = "nat list"

definition str :: "string \<Rightarrow> pystr" where
  "str s = map of_char s"

definition valid_str :: "pystr \<Rightarrow> bool" where
  "valid_str s = list_all (\<lambda>c. c < 1114112) s"

subsection \<open>Python floats, as far as \<^verbatim>\<open>calculate_progress\<close> uses them\<close>

text \<open>
  \<^verbatim>\<open>int((completed_count / total_count) * 100)\<close> is evaluated in IEEE 754 binary64:
  the true division of two ints gives the double nearest to the exact quotient, the product
  with \<^verbatim>\<open>100\<close> is rounded again, and \<^verbatim>\<open>int()\<close> truncates. A non-negative double is
  modelled exactly, as a pair \<open>(m, e)\<close> standing for \<open>m * 2 ^ e\<close>, with \<open>m\<close> of at
  most 53 bits after each rounding (round to nearest, ties to even). The exponent range is
  not modelled: the operands here are list lengths and \<^verbatim>\<open>100\<close>, so every value lies
  between \<open>2 ^ - 64\<close> and \<open>100\<close>, far from overflow and from the subnormal numbers.
\<close>

type_synonym float64 = "int \<times> int"

fun bit_length :: "nat \<Rightarrow> nat" where
  "bit_length n = (if n = 0 then 0 else Suc (bit_length (n div 2)))"

declare bit_length.simps [simp del]

definition rne_div :: "int \<Rightarrow> int \<Rightarrow> int" where
  \<comment> \<open>the integer nearest to \<open>n / d\<close> for \<open>0 \<le> n\<close>, \<open>0 < d\<close>; a tie goes to the even one\<close>
  "rne_div n d =
     (let q = n div d; r = n mod d
      in if 2 * r < d then q
         else if d < 2 * r then q + 1
         else if even q then q else q + 1)"

definition round53 :: "float64 \<Rightarrow> float64" where
  \<comment> \<open>rounds the exact value \<open>m * 2 ^ e\<close> to 53 significant bits\<close>
  "round53 x =
     (case x of (m, e) \<Rightarrow>
        let l = bit_length (nat m)
        in if l \<le> 53 then (m, e)
           else (rne_div m (2 ^ (l - 53)), e + int (l - 53)))"

definition float_truediv :: "nat \<Rightarrow> nat \<Rightarrow> float64" where
  \<comment> \<open>\<^verbatim>\<open>n / d\<close> on ints, for \<open>d \<noteq> 0\<close>: the double nearest to the exact quotient.
      \<open>E\<close> is the binary exponent of the quotient, \<open>2 ^ E \<le> n / d < 2 ^ (E + 1)\<close>.\<close>
  "float_truediv n d =
     (if n = 0 then (0, 0)
      else
        let k = int (bit_length n) - int (bit_length d);
            E = (if d * 2 ^ nat k \<le> n * 2 ^ nat (- k) then k else k - 1);
            e = E - 52
        in (rne_div (int n * 2 ^ nat (- e)) (int d * 2 ^ nat e), e))"

definition float_of_nat :: "nat \<Rightarrow> float64" where
  \<comment> \<open>exact for \<open>n < 2 ^ 53\<close>\<close>
  "float_of_nat n = round53 (int n, 0)"

definition float_mul :: "float64 \<Rightarrow> float64 \<Rightarrow> float64" where
  "float_mul x y = (case x of (m1, e1) \<Rightarrow> case y of (m2, e2) \<Rightarrow> round53 (m1 * m2, e1 + e2))"

definition float_int :: "float64 \<Rightarrow> int" where
  \<comment> \<open>\<^verbatim>\<open>int(x)\<close>: truncation (towards zero; the values here are not negative)\<close>
  "float_int x = (case x of (m, e) \<Rightarrow> if 0 \<le> e then m * 2 ^ nat e else m div 2 ^ nat (- e))"

subsection \<open>Model classes\<close>

text \<open>
  \<^verbatim>\<open>models/base.py\<close>, \<^verbatim>\<open>five_whys.py\<close>, \<^verbatim>\<open>ishikawa.py\<close>, \<^verbatim>\<open>action_plan.py\<close>,
  \<^verbatim>\<open>project.py\<close>. Every column is nullable on the Python object (a column default is
  applied only when the row is inserted), so a column is an \<open>option\<close>. A relationship is
  the list of the loaded children. Field names shared by several classes carry the class
  as a prefix. Dates and timestamps are day and tick numbers; the enums are those of
  \<^verbatim>\<open>models/enums.py\<close>.
\<close>

datatype ProjectStatus = IN_PROGRESS | COMPLETED | ON_HOLD | CANCELLED

datatype KaizenPhase = PREPARATION | ANALYSIS | IMPROVEMENT | IMPLEMENTATION | REVIEW

datatype TaskStatus = NOT_STARTED | TASK_IN_PROGRESS | TASK_COMPLETED | BLOCKED

datatype Priority = LOW | MEDIUM | HIGH | CRITICAL

record BaseModel =
  id' :: "pystr option"
  created_at :: "nat option"
  updated_at :: "nat option"

record FiveWhys = BaseModel +
  fw_project_id :: "pystr option"
  fw_problem_statement :: "pystr option"
  why_1 :: "pystr option"
  why_2 :: "pystr option"
  why_3 :: "pystr option"
  why_4 :: "pystr option"
  why_5 :: "pystr option"
  additional_whys :: "pystr option"
  root_cause :: "pystr option"
  fw_is_completed :: "bool option"

record IshikawaCategory = BaseModel +
  diagram_id :: "pystr option"
  cat_name :: "pystr option"
  causes :: "pystr option"
  cat_order :: "int option"

record IshikawaDiagram = BaseModel +
  ish_project_id :: "pystr option"
  ish_problem_statement :: "pystr option"
  ish_is_completed :: "bool option"
  categories :: "IshikawaCategory list"

record ActionPlanTask = BaseModel +
  action_plan_id :: "pystr option"
  task_description :: "pystr option"
  responsible_person :: "pystr option"
  deadline :: "nat option"
  task_status :: "TaskStatus option"
  priority :: "Priority option"
  task_notes :: "pystr option"
  completed_date :: "nat option"

record ActionPlan = BaseModel +
  ap_project_id :: "pystr option"
  ap_is_completed :: "bool option"
  tasks :: "ActionPlanTask list"

record Project = BaseModel +
  name :: "pystr option"
  description :: "pystr option"
  target_area :: "pystr option"
  start_date :: "nat option"
  expected_completion_date :: "nat option"
  actual_completion_date :: "nat option"
  status :: "ProjectStatus option"
  progress_percentage :: "int option"
  team_members :: "pystr option"
  current_phase :: "KaizenPhase option"
  five_whys :: "FiveWhys list"
  ishikawa_diagrams :: "IshikawaDiagram list"
  action_plans :: "ActionPlan list"

text \<open>Truthiness of a nullable Boolean column: \<^verbatim>\<open>None\<close> and \<^verbatim>\<open>False\<close> are falsy.\<close>

definition truthy_bool :: "bool option \<Rightarrow> bool" where
  "truthy_bool b = (b = Some True)"

subsection \<open>\<^verbatim>\<open>Project.calculate_progress\<close>\<close>

text \<open>
  The method returns the percentage and mutates \<^verbatim>\<open>self\<close>; the model returns the pair of
  the result and the project after the call. \<^verbatim>\<open>sum(1 for x in xs if x.is_completed)\<close>
  is the number of truthy flags.
\<close>

definition calculate_progress :: "Project \<Rightarrow> int \<times> Project" where
  "calculate_progress self =
     (let completed_count = 0; total_count = 0;
          (total_count, completed_count) =
            (if five_whys self \<noteq> []
             then (total_count + length (five_whys self),
                   completed_count
                     + length (filter (\<lambda>fw. truthy_bool (fw_is_completed fw)) (five_whys self)))
             else (total_count, completed_count));
          (total_count, completed_count) =
            (if ishikawa_diagrams self \<noteq> []
             then (total_count + length (ishikawa_diagrams self),
                   completed_count
                     + length (filter (\<lambda>ish. truthy_bool (ish_is_completed ish))
                         (ishikawa_diagrams self)))
             else (total_count, completed_count));
          (total_count, completed_count) =
            (if action_plans self \<noteq> []
             then (total_count + length (action_plans self),
                   completed_count
                     + length (filter (\<lambda>ap. truthy_bool (ap_is_completed ap)) (action_plans self)))
             else (total_count, completed_count))
      in if total_count = 0 then (0, self)
         else
           let progress =
                 float_int (float_mul (float_truediv completed_count total_count)
                   (float_of_nat 100))
           in (progress, self\<lparr>progress_percentage := Some progress\<rparr>))"

text \<open>The two counts the method works with, and the percentage of the specification.\<close>

definition total_children :: "Project \<Rightarrow> nat" where
  "total_children p =
     length (five_whys p) + length (ishikawa_diagrams p) + length (action_plans p)"

definition completed_children :: "Project \<Rightarrow> nat" where
  "completed_children p =
     length (filter (\<lambda>fw. truthy_bool (fw_is_completed fw)) (five_whys p))
     + length (filter (\<lambda>ish. truthy_bool (ish_is_completed ish)) (ishikawa_diagrams p))
     + length (filter (\<lambda>ap. truthy_bool (ap_is_completed ap)) (action_plans p))"

definition floor_percentage :: "nat \<Rightarrow> nat \<Rightarrow> int" where
  "floor_percentage completed_count total_count =
     (if total_count = 0 then 0 else int ((100 * completed_count) div total_count))"

text \<open>Objects as the constructors of the model classes leave them: every column unset.\<close>

definition new_FiveWhys :: FiveWhys where
  "new_FiveWhys =
     \<lparr>id' = None, created_at = None, updated_at = None,
      fw_project_id = None, fw_problem_statement = None,
      why_1 = None, why_2 = None, why_3 = None, why_4 = None, why_5 = None,
      additional_whys = None, root_cause = None, fw_is_completed = None\<rparr>"

definition new_IshikawaCategory :: IshikawaCategory where
  "new_IshikawaCategory =
     \<lparr>id' = None, created_at = None, updated_at = None,
      diagram_id = None, cat_name = None, causes = None, cat_order = None\<rparr>"

definition new_IshikawaDiagram :: IshikawaDiagram where
  "new_IshikawaDiagram =
     \<lparr>id' = None, created_at = None, updated_at = None,
      ish_project_id = None, ish_problem_statement = None, ish_is_completed = None,
      categories = []\<rparr>"

definition new_ActionPlan :: ActionPlan where
  "new_ActionPlan =
     \<lparr>id' = None, created_at = None, updated_at = None,
      ap_project_id = None, ap_is_completed = None, tasks = []\<rparr>"

definition new_Project :: Project where
  "new_Project =
     \<lparr>id' = None, created_at = None, updated_at = None,
      name = None, description = None, target_area = None, start_date = None,
      expected_completion_date = None, actual_completion_date = None, status = None,
      progress_percentage = None, team_members = None, current_phase = None,
      five_whys = [], ishikawa_diagrams = [], action_plans = []\<rparr>"

text \<open>
  A project whose only children are \<open>n\<close> completed and \<open>m\<close> open Five Whys analyses,
  and the first sample project of \<^verbatim>\<open>database/seed_data.py\<close>: it is created with
  \<^verbatim>\<open>progress_percentage=35\<close> and without children.
\<close>

definition project_with :: "nat \<Rightarrow> nat \<Rightarrow> Project" where
  "project_with n m =
     new_Project\<lparr>five_whys :=
       replicate n (new_FiveWhys\<lparr>fw_is_completed := Some True\<rparr>) @ replicate m new_FiveWhys\<rparr>"

definition seed_project :: Project where
  "seed_project =
     new_Project\<lparr>name := Some (str ''Assembly Line Optimization''),
       status := Some IN_PROGRESS, current_phase := Some ANALYSIS,
       progress_percentage := Some 35\<rparr>"

subsection \<open>The generic repository\<close>

text \<open>
  \<^verbatim>\<open>BaseRepository\<close> is generic in the model class and sees an instance only through
  its mapped columns. A row is therefore an association list from column names to values,
  a table is the list of its rows, and the database gives the table of each model class.
  The column names are those of the \<^verbatim>\<open>Column\<close> declarations of the model classes.
\<close>

datatype val = VNone | VStr pystr | VInt int | VBool bool

type_synonym entity = "(string \<times> val) list"

datatype model =
  ProjectM | FiveWhysM | IshikawaDiagramM | IshikawaCategoryM | ActionPlanM | ActionPlanTaskM

type_synonym database = "model \<Rightarrow> entity list"




text \<open>The value of a column of a row; an unset column is \<^verbatim>\<open>None\<close> (SQL \<^verbatim>\<open>NULL\<close>).\<close>

definition getattr :: "entity \<Rightarrow> string \<Rightarrow> val" where
  "getattr e key = (case map_of e key of None \<Rightarrow> VNone | Some v \<Rightarrow> v)"

definition setattr :: "entity \<Rightarrow> string \<Rightarrow> val \<Rightarrow> entity" where
  "setattr e key v = AList.update key v e"

text \<open>Truthiness of a column value, as \<^verbatim>\<open>if obj.id:\<close> tests it.\<close>

fun truthy :: "val \<Rightarrow> bool" where
  "truthy VNone = False"
| "truthy (VStr s) = (s \<noteq> [])"
| "truthy (VInt i) = (i \<noteq> 0)"
| "truthy (VBool b) = b"

definition get_all :: "model \<Rightarrow> database \<Rightarrow> entity list" where
  "get_all m db = db m"

text \<open>\<^verbatim>\<open>query.filter(self.model.id == record_id).first()\<close>\<close>

definition get_by_id :: "model \<Rightarrow> val \<Rightarrow> database \<Rightarrow> entity option" where
  "get_by_id m record_id db = find (\<lambda>e. getattr e ''id'' = record_id) (db m)"

text \<open>
  \<^verbatim>\<open>session.merge(obj); session.commit()\<close>: the state of \<open>obj\<close> replaces the row
  with its primary key, or becomes a new row when there is none. \<open>now\<close> is the clock
  reading that \<^verbatim>\<open>onupdate=datetime.utcnow\<close> stores in \<^verbatim>\<open>updated_at\<close>. (The callers
  modelled here pass objects that have an id; generating a fresh id is not modelled.)
\<close>

definition update :: "model \<Rightarrow> val \<Rightarrow> entity \<Rightarrow> database \<Rightarrow> database" where
  "update m now obj db =
     (let row = setattr obj ''updated_at'' now
      in if get_by_id m (getattr obj ''id'') db = None then db(m := db m @ [row])
         else db(m := map (\<lambda>e. if getattr e ''id'' = getattr obj ''id'' then row else e) (db m)))"

text \<open>
  The relationships declared with \<^verbatim>\<open>cascade="all, delete-orphan"\<close>, as pairs of the
  child class and its foreign-key column: \<^verbatim>\<open>Project.five_whys\<close>,
  \<^verbatim>\<open>Project.ishikawa_diagrams\<close>, \<^verbatim>\<open>Project.action_plans\<close>,
  \<^verbatim>\<open>IshikawaDiagram.categories\<close>, \<^verbatim>\<open>ActionPlan.tasks\<close>.
\<close>

fun cascades :: "model \<Rightarrow> (model \<times> string) list" where
  "cascades ProjectM =
     [(FiveWhysM, ''project_id''), (IshikawaDiagramM, ''project_id''),
      (ActionPlanM, ''project_id'')]"
| "cascades IshikawaDiagramM = [(IshikawaCategoryM, ''diagram_id'')]"
| "cascades ActionPlanM = [(ActionPlanTaskM, ''action_plan_id'')]"
| "cascades FiveWhysM = []"
| "cascades IshikawaCategoryM = []"
| "cascades ActionPlanTaskM = []"

text \<open>
  The collection a relationship loads for the parent with primary key \<open>i\<close>: the rows of
  the child table whose foreign key is \<open>i\<close>. Nothing is loaded for a parent without key.
\<close>

definition children :: "model \<Rightarrow> string \<Rightarrow> val \<Rightarrow> database \<Rightarrow> entity list" where
  "children cm fk i db = (if i = VNone then [] else filter (\<lambda>e. getattr e fk = i) (db cm))"

text \<open>
  \<^verbatim>\<open>session.delete(obj)\<close> marks \<open>obj\<close> and, along the cascading relationships, its
  children and their children for deletion; \<open>n\<close> bounds the depth that is followed.
  \<^verbatim>\<open>session.commit()\<close> then deletes every marked object by its primary key. The
  ownership hierarchy (project, artifact, category or task) has depth 2.
\<close>

primrec cascade_objects :: "nat \<Rightarrow> model \<Rightarrow> val \<Rightarrow> database \<Rightarrow> (model \<times> val) list" where
  "cascade_objects 0 m i db = [(m, i)]"
| "cascade_objects (Suc n) m i db =
     concat (map (\<lambda>(cm, fk).
        concat (map (\<lambda>child. cascade_objects n cm (getattr child ''id'') db)
          (children cm fk i db)))
       (cascades m)) @ [(m, i)]"

definition delete_row :: "model \<times> val \<Rightarrow> database \<Rightarrow> database" where
  "delete_row mi db =
     (case mi of (m, i) \<Rightarrow> db(m := filter (\<lambda>e. getattr e ''id'' \<noteq> i) (db m)))"

definition session_delete :: "model \<Rightarrow> entity \<Rightarrow> database \<Rightarrow> database" where
  "session_delete m obj db = fold delete_row (cascade_objects 2 m (getattr obj ''id'') db) db"

text \<open>\<^verbatim>\<open>BaseRepository.delete\<close>: the result and the database after the call.\<close>

definition delete :: "model \<Rightarrow> val \<Rightarrow> database \<Rightarrow> bool \<times> database" where
  "delete m record_id db =
     (case get_by_id m record_id db of
        Some obj \<Rightarrow> (True, session_delete m obj db)
      | None \<Rightarrow> (False, db))"


text \<open>A small database: two projects; the first owns two Five Whys analyses, a diagram
  with one category and an action plan with one task.\<close>

definition demo_db :: database where
  "demo_db m =
     (case m of
        ProjectM \<Rightarrow>
          [[(''id'', VStr (str ''p1'')), (''name'', VStr (str ''Line 3''))],
           [(''id'', VStr (str ''p2'')), (''name'', VStr (str ''Dock''))]]
      | FiveWhysM \<Rightarrow>
          [[(''id'', VStr (str ''f1'')), (''project_id'', VStr (str ''p1'')),
            (''is_completed'', VBool True)],
           [(''id'', VStr (str ''f2'')), (''project_id'', VStr (str ''p2'')),
            (''is_completed'', VBool False)],
           [(''id'', VStr (str ''f3'')), (''project_id'', VStr (str ''p1'')),
            (''is_completed'', VBool False)]]
      | IshikawaDiagramM \<Rightarrow>
          [[(''id'', VStr (str ''d1'')), (''project_id'', VStr (str ''p1''))],
           [(''id'', VStr (str ''d2'')), (''project_id'', VStr (str ''p2''))]]
      | IshikawaCategoryM \<Rightarrow>
          [[(''id'', VStr (str ''c1'')), (''diagram_id'', VStr (str ''d1'')),
            (''name'', VStr (str ''People''))],
           [(''id'', VStr (str ''c2'')), (''diagram_id'', VStr (str ''d2'')),
            (''name'', VStr (str ''People''))]]
      | ActionPlanM \<Rightarrow>
          [[(''id'', VStr (str ''a1'')), (''project_id'', VStr (str ''p1''))]]
      | ActionPlanTaskM \<Rightarrow>
          [[(''id'', VStr (str ''t1'')), (''action_plan_id'', VStr (str ''a1''))]])"

subsection \<open>\<^verbatim>\<open>mark_complete\<close> of the artifact views\<close>

text \<open>
  \<^verbatim>\<open>FiveWhysView.mark_complete\<close>, \<^verbatim>\<open>IshikawaView.mark_complete\<close> and
  \<^verbatim>\<open>ActionPlanView.mark_complete\<close> are the same method up to the attribute that holds
  the artifact, the repository and the texts. The state of a view is the artifact it
  edits, its project, the completion label, the button and the message boxes shown so
  far; the answer to the confirmation question and the clock are arguments. The project
  is the object the view holds, with its children as they are loaded. The repository
  model raises no store failure, so the \<^verbatim>\<open>except Exception\<close> branch has no counterpart.
\<close>

datatype icon = Warning | Question | Information | Critical

datatype StandardButton = Yes | No

datatype view_kind = FiveWhysView | IshikawaView | ActionPlanView

record view =
  artifact :: "entity option"
  project :: "Project option"
  completion_label_text :: pystr
  completion_label_visible :: bool
  mark_complete_btn_enabled :: bool
  shown :: "(icon \<times> string \<times> string) list"

fun repository_model :: "view_kind \<Rightarrow> model" where
  "repository_model FiveWhysView = FiveWhysM"
| "repository_model IshikawaView = IshikawaDiagramM"
| "repository_model ActionPlanView = ActionPlanM"

fun not_saved_text :: "view_kind \<Rightarrow> string" where
  "not_saved_text FiveWhysView = ''Please save the analysis first.''"
| "not_saved_text IshikawaView = ''Please save the diagram first.''"
| "not_saved_text ActionPlanView = ''Please save the action plan first.''"

fun question_text :: "view_kind \<Rightarrow> string" where
  "question_text FiveWhysView = ''Mark this 5 Whys analysis as complete?''"
| "question_text IshikawaView = ''Mark this Ishikawa diagram as complete?''"
| "question_text ActionPlanView = ''Mark this action plan as complete?''"

fun success_text :: "view_kind \<Rightarrow> string" where
  "success_text FiveWhysView = ''Analysis marked as complete!''"
| "success_text IshikawaView = ''Diagram marked as complete!''"
| "success_text ActionPlanView = ''Action plan marked as complete!''"

definition mark_complete ::
  "view_kind \<Rightarrow> StandardButton \<Rightarrow> val \<Rightarrow> view \<times> database \<Rightarrow> view \<times> database" where
  "mark_complete k reply now s =
     (case s of (self, db) \<Rightarrow>
        (case artifact self of
           None \<Rightarrow>
             (self\<lparr>shown := shown self @ [(Warning, ''Not Saved'', not_saved_text k)]\<rparr>, db)
         | Some a \<Rightarrow>
             if \<not> truthy (getattr a ''id'')
             then (self\<lparr>shown := shown self @ [(Warning, ''Not Saved'', not_saved_text k)]\<rparr>, db)
             else
               let self = self\<lparr>shown :=
                     shown self @ [(Question, ''Mark as Complete'', question_text k)]\<rparr>
               in if reply = Yes
                  then
                    let a = setattr a ''is_completed'' (VBool True);
                        db = update (repository_model k) now a db;
                        self = self\<lparr>artifact := Some a,
                                 completion_label_text := 10003 # str '' Completed'',
                                 completion_label_visible := True,
                                 mark_complete_btn_enabled := False\<rparr>;
                        self = (case project self of
                                  None \<Rightarrow> self
                                | Some p \<Rightarrow> self\<lparr>project := Some (snd (calculate_progress p))\<rparr>);
                        self = self\<lparr>shown :=
                                 shown self @ [(Information, ''Success'', success_text k)]\<rparr>
                    in (self, db)
                  else (self, db)))"

text \<open>A view on a Five Whys analysis that has not been saved: the object has no id.\<close>

definition unsaved_view :: view where
  "unsaved_view =
     \<lparr>artifact = Some [(''project_id'', VStr (str ''p1'')),
                       (''problem_statement'', VStr (str ''Line stops''))],
      project = Some new_Project,
      completion_label_text = [],
      completion_label_visible = False,
      mark_complete_btn_enabled = True,
      shown = []\<rparr>"

subsection \<open>The \<^verbatim>\<open>json\<close> module\<close>

text \<open>
  \<^verbatim>\<open>json.loads\<close> on a \<^verbatim>\<open>str\<close> and \<^verbatim>\<open>json.dumps\<close> on a list of strings, as
  CPython's \<^verbatim>\<open>json.decoder\<close>, \<^verbatim>\<open>json.scanner\<close> and \<^verbatim>\<open>json.encoder\<close> (with
  their accelerated versions in \<^verbatim>\<open>_json\<close>) define them with the default arguments (\<^verbatim>\<open>strict=True\<close>, \<^verbatim>\<open>ensure_ascii=True\<close>, the
  separators \<^verbatim>\<open>", "\<close> and \<^verbatim>\<open>": "\<close>). The functions keep the names of the library.
  Characters are code points: 34 is the double quote, 92 the backslash, 117 the letter u,
  91 and 93 the brackets, 123 and 125 the braces, 44 the comma, 58 the colon, 45 the minus
  sign, 46 the full stop, 48 to 57 the digits.

  A decoded value is \<^verbatim>\<open>None\<close>, a bool, an int, a float, a string, a list or a dict. A
  float is kept as the text that \<^verbatim>\<open>float()\<close> is applied to; a dict is the list of its
  items in insertion order.

  Two limits of the interpreter make \<^verbatim>\<open>json.loads\<close> raise an exception that is no
  \<^verbatim>\<open>JSONDecodeError\<close>. \<^verbatim>\<open>int()\<close> raises \<^verbatim>\<open>ValueError\<close> for a literal of more than
  \<^verbatim>\<open>sys.get_int_max_str_digits()\<close> digits, 4300 unless configured otherwise; a float
  literal has no such limit. The scanner enters every array and every object through
  \<^verbatim>\<open>Py_EnterRecursiveCall\<close>, which raises \<^verbatim>\<open>RecursionError\<close> when the call stack has
  reached \<^verbatim>\<open>sys.getrecursionlimit()\<close>, 1000 unless configured otherwise. How many arrays
  and objects may be nested therefore depends on the frames already on the stack;
  \<open>nesting_limit\<close> is the number for a getter that is called from the top level of a
  module (CPython 3.11), and it is smaller for a call from deeper in the stack.

  The scanner recurses on the nesting of the text. In the model the recursion is bounded
  by a counter as well; \<open>Unfinished\<close> marks a scan cut off by that counter, and
  \<open>json_loads\<close> starts with a value that is never used up (lemma \<open>scan_fuel\<close>).
  \<open>Expecting\<close> stands for the \<^verbatim>\<open>JSONDecodeError\<close> (or the \<^verbatim>\<open>StopIteration\<close> that
  becomes one) raised while scanning, \<open>Raised\<close> for any other exception.
\<close>

datatype json =
  JNull | JBool bool | JInt int | JFloat pystr | JString pystr
  | JArray "json list" | JObject "(pystr \<times> json) list"

text \<open>
  The exceptions that the modelled code can raise. \<open>OutOfFuel\<close> is no Python exception:
  \<open>json_loads\<close> would return it for a scan that the bound cut off, which never happens
  (lemma \<open>json_loads_returns\<close>).
\<close>

datatype error = JSONDecodeError | ValueError | RecursionError | TypeError | OutOfFuel

datatype 'a scan = Scanned 'a pystr | Expecting | Raised error | Unfinished

definition int_max_str_digits :: nat where
  "int_max_str_digits = 4300"

definition nesting_limit :: nat where
  "nesting_limit = 994"

text \<open>\<^verbatim>\<open>WHITESPACE = [ \t\n\r]*\<close>\<close>

definition is_ws :: "nat \<Rightarrow> bool" where
  "is_ws c = (c = 32 \<or> c = 9 \<or> c = 10 \<or> c = 13)"

definition skip_ws :: "pystr \<Rightarrow> pystr" where
  "skip_ws s = dropWhile is_ws s"

definition is_digit :: "nat \<Rightarrow> bool" where
  "is_digit c = (48 \<le> c \<and> c \<le> 57)"

text \<open>
  \<^verbatim>\<open>scanstring\<close> (strict): the text after the opening quote, up to the closing quote.
  A control character ends the scan with an error; a backslash is followed by one of
  the characters of \<^verbatim>\<open>BACKSLASH\<close> or by \<^verbatim>\<open>uXXXX\<close> with four hexadecimal digits;
  a high surrogate escape followed at once by a low surrogate escape is one code point.
  The result is the decoded string and the text behind the closing quote.
\<close>

definition hexval :: "nat \<Rightarrow> nat option" where
  "hexval c =
     (if 48 \<le> c \<and> c \<le> 57 then Some (c - 48)
      else if 97 \<le> c \<and> c \<le> 102 then Some (c - 87)
      else if 65 \<le> c \<and> c \<le> 70 then Some (c - 55)
      else None)"

fun hex4 :: "pystr \<Rightarrow> nat option" where
  "hex4 [a, b, c, d] =
     (case hexval a of None \<Rightarrow> None | Some w \<Rightarrow>
      case hexval b of None \<Rightarrow> None | Some x \<Rightarrow>
      case hexval c of None \<Rightarrow> None | Some y \<Rightarrow>
      case hexval d of None \<Rightarrow> None | Some z \<Rightarrow>
        Some (4096 * w + 256 * x + 16 * y + z))"
| "hex4 _ = None"

definition BACKSLASH :: "nat \<Rightarrow> nat option" where
  "BACKSLASH esc =
     (if esc = 34 then Some 34 else if esc = 92 then Some 92 else if esc = 47 then Some 47
      else if esc = 98 then Some 8 else if esc = 102 then Some 12
      else if esc = 110 then Some 10 else if esc = 114 then Some 13
      else if esc = 116 then Some 9 else None)"

definition is_high_surrogate :: "nat \<Rightarrow> bool" where
  "is_high_surrogate c = (55296 \<le> c \<and> c \<le> 56319)"

definition is_low_surrogate :: "nat \<Rightarrow> bool" where
  "is_low_surrogate c = (56320 \<le> c \<and> c \<le> 57343)"

definition append_char :: "nat \<Rightarrow> (pystr \<times> pystr) option \<Rightarrow> (pystr \<times> pystr) option" where
  "append_char c res = (case res of None \<Rightarrow> None | Some (chunks, rest) \<Rightarrow> Some (c # chunks, rest))"

fun scanstring :: "pystr \<Rightarrow> (pystr \<times> pystr) option" where
  "scanstring [] = None"
| "scanstring (c # s) =
     (if c = 34 then Some ([], s)
      else if c = 92 then
        (case s of
           [] \<Rightarrow> None
         | esc # s1 \<Rightarrow>
             if esc \<noteq> 117
             then (case BACKSLASH esc of
                     None \<Rightarrow> None
                   | Some char \<Rightarrow> append_char char (scanstring s1))
             else
               (case hex4 (take 4 s1) of
                  None \<Rightarrow> None
                | Some uni \<Rightarrow>
                    if is_high_surrogate uni \<and> take 2 (drop 4 s1) = [92, 117]
                    then (case hex4 (take 4 (drop 6 s1)) of
                            None \<Rightarrow> None
                          | Some uni2 \<Rightarrow>
                              if is_low_surrogate uni2
                              then append_char
                                     (65536 + ((uni - 55296) * 1024 + (uni2 - 56320)))
                                     (scanstring (drop 10 s1))
                              else append_char uni (scanstring (drop 4 s1)))
                    else append_char uni (scanstring (drop 4 s1))))
      else if c < 32 then None
      else append_char c (scanstring s))"

text \<open>
  The literals, and the numbers \<^verbatim>\<open>-?(0|[1-9][0-9]*)(\.[0-9]+)?([eE][-+]?[0-9]+)?\<close> as
  the scanner matches them (the digits are the ASCII digits): a number without fraction
  and exponent is an int, any other a float. \<open>match_number\<close> gives \<open>Expecting\<close> when the
  text does not start with a number, and raises \<^verbatim>\<open>ValueError\<close> for an int with too many
  digits.
\<close>

definition starts_with :: "pystr \<Rightarrow> pystr \<Rightarrow> bool" where
  "starts_with p s = (take (length p) s = p)"

definition digits_value :: "pystr \<Rightarrow> nat" where
  "digits_value ds = foldl (\<lambda>a d. 10 * a + (d - 48)) 0 ds"

definition match_exponent :: "pystr \<Rightarrow> pystr \<times> pystr" where
  "match_exponent s =
     (case s of
        [] \<Rightarrow> ([], s)
      | e # r \<Rightarrow>
          if e = 101 \<or> e = 69
          then
            let sg = (if r \<noteq> [] \<and> (hd r = 43 \<or> hd r = 45) then [hd r] else []);
                r1 = drop (length sg) r
            in if r1 \<noteq> [] \<and> is_digit (hd r1)
               then (e # sg @ takeWhile is_digit r1, dropWhile is_digit r1)
               else ([], s)
          else ([], s))"

definition match_fraction :: "pystr \<Rightarrow> pystr \<times> pystr" where
  "match_fraction s =
     (case s of
        p # d # r \<Rightarrow>
          if p = 46 \<and> is_digit d
          then (p # takeWhile is_digit (d # r), dropWhile is_digit (d # r))
          else ([], s)
      | _ \<Rightarrow> ([], s))"

definition match_number :: "pystr \<Rightarrow> json scan" where
  "match_number s =
     (let sg = (if s \<noteq> [] \<and> hd s = 45 then [45] else []);
          s1 = drop (length sg) s
      in case s1 of
           [] \<Rightarrow> Expecting
         | d # r \<Rightarrow>
             if \<not> is_digit d then Expecting
             else
               let (integer, r1) =
                     (if d = 48 then ([48], r)
                      else (takeWhile is_digit s1, dropWhile is_digit s1));
                   (frac, r2) = match_fraction r1;
                   (exp, r3) = match_exponent r2
               in if frac = [] \<and> exp = []
                  then if int_max_str_digits < length integer then Raised ValueError
                       else Scanned (JInt (if sg = [] then int (digits_value integer)
                                           else - int (digits_value integer))) r3
                  else Scanned (JFloat (sg @ integer @ frac @ exp)) r3)"

definition scan_constant :: "pystr \<Rightarrow> json scan" where
  "scan_constant s =
     (if starts_with (str ''null'') s then Scanned JNull (drop 4 s)
      else if starts_with (str ''true'') s then Scanned (JBool True) (drop 4 s)
      else if starts_with (str ''false'') s then Scanned (JBool False) (drop 5 s)
      else case match_number s of
             Scanned obj rest \<Rightarrow> Scanned obj rest
           | Raised e \<Rightarrow> Raised e
           | Unfinished \<Rightarrow> Unfinished
           | Expecting \<Rightarrow>
               if starts_with (str ''NaN'') s then Scanned (JFloat (str ''NaN'')) (drop 3 s)
               else if starts_with (str ''Infinity'') s
               then Scanned (JFloat (str ''Infinity'')) (drop 8 s)
               else if starts_with (str ''-Infinity'') s
               then Scanned (JFloat (str ''-Infinity'')) (drop 9 s)
               else Expecting)"

text \<open>\<^verbatim>\<open>dict(pairs)\<close>: a later value replaces an earlier one under the same key.\<close>

definition dict :: "(pystr \<times> json) list \<Rightarrow> (pystr \<times> json) list" where
  "dict pairs = fold (\<lambda>(k, v). AList.update k v) pairs []"

text \<open>
  \<^verbatim>\<open>scan_once\<close> with \<^verbatim>\<open>JSONArray\<close> and \<^verbatim>\<open>JSONObject\<close>. The two loop functions are
  the \<^verbatim>\<open>while True\<close> loops of the latter two: the array loop starts at a value, the
  object loop behind the opening quote of a key. The first argument is the counter of
  the model, the second the number of arrays and objects that may still be entered
  before the interpreter raises \<^verbatim>\<open>RecursionError\<close>.
\<close>

fun scan_once :: "nat \<Rightarrow> nat \<Rightarrow> pystr \<Rightarrow> json scan"
  and JSONArray_loop :: "nat \<Rightarrow> nat \<Rightarrow> pystr \<Rightarrow> (json list) scan"
  and JSONObject_loop :: "nat \<Rightarrow> nat \<Rightarrow> pystr \<Rightarrow> ((pystr \<times> json) list) scan"
where
  "scan_once 0 d s = Unfinished"
| "scan_once (Suc n) d s =
     (case s of
        [] \<Rightarrow> Expecting
      | nextchar # r \<Rightarrow>
          if nextchar = 34
          then (case scanstring r of
                  None \<Rightarrow> Expecting
                | Some (content, rest) \<Rightarrow> Scanned (JString content) rest)
          else if nextchar = 123
          then (case d of
                  0 \<Rightarrow> Raised RecursionError
                | Suc d' \<Rightarrow>
                    (case skip_ws r of
                       [] \<Rightarrow> Expecting
                     | c # r1 \<Rightarrow>
                         if c = 125 then Scanned (JObject []) r1
                         else if c \<noteq> 34 then Expecting
                         else (case JSONObject_loop n d' r1 of
                                 Scanned pairs rest \<Rightarrow> Scanned (JObject (dict pairs)) rest
                               | Expecting \<Rightarrow> Expecting
                               | Raised e \<Rightarrow> Raised e
                               | Unfinished \<Rightarrow> Unfinished)))
          else if nextchar = 91
          then (case d of
                  0 \<Rightarrow> Raised RecursionError
                | Suc d' \<Rightarrow>
                    (case skip_ws r of
                       [] \<Rightarrow> Expecting
                     | c # r1 \<Rightarrow>
                         if c = 93 then Scanned (JArray []) r1
                         else (case JSONArray_loop n d' (c # r1) of
                                 Scanned values rest \<Rightarrow> Scanned (JArray values) rest
                               | Expecting \<Rightarrow> Expecting
                               | Raised e \<Rightarrow> Raised e
                               | Unfinished \<Rightarrow> Unfinished)))
          else scan_constant s)"
| "JSONArray_loop 0 d s = Unfinished"
| "JSONArray_loop (Suc n) d s =
     (case scan_once n d s of
        Expecting \<Rightarrow> Expecting
      | Raised e \<Rightarrow> Raised e
      | Unfinished \<Rightarrow> Unfinished
      | Scanned v r \<Rightarrow>
          (case skip_ws r of
             [] \<Rightarrow> Expecting
           | c # r1 \<Rightarrow>
               if c = 93 then Scanned [v] r1
               else if c \<noteq> 44 then Expecting
               else (case JSONArray_loop n d (skip_ws r1) of
                       Scanned values rest \<Rightarrow> Scanned (v # values) rest
                     | Expecting \<Rightarrow> Expecting
                     | Raised e \<Rightarrow> Raised e
                     | Unfinished \<Rightarrow> Unfinished)))"
| "JSONObject_loop 0 d s = Unfinished"
| "JSONObject_loop (Suc n) d s =
     (case scanstring s of
        None \<Rightarrow> Expecting
      | Some (key, r) \<Rightarrow>
          (case skip_ws r of
             [] \<Rightarrow> Expecting
           | c # r1 \<Rightarrow>
               if c \<noteq> 58 then Expecting
               else (case scan_once n d (skip_ws r1) of
                       Expecting \<Rightarrow> Expecting
                     | Raised e \<Rightarrow> Raised e
                     | Unfinished \<Rightarrow> Unfinished
                     | Scanned v r2 \<Rightarrow>
                         (case skip_ws r2 of
                            [] \<Rightarrow> Expecting
                          | c2 # r3 \<Rightarrow>
                              if c2 = 125 then Scanned [(key, v)] r3
                              else if c2 \<noteq> 44 then Expecting
                              else (case skip_ws r3 of
                                      [] \<Rightarrow> Expecting
                                    | c3 # r4 \<Rightarrow>
                                        if c3 \<noteq> 34 then Expecting
                                        else (case JSONObject_loop n d r4 of
                                                Scanned pairs rest \<Rightarrow>
                                                  Scanned ((key, v) # pairs) rest
                                              | Expecting \<Rightarrow> Expecting
                                              | Raised e \<Rightarrow> Raised e
                                              | Unfinished \<Rightarrow> Unfinished))))))"

text \<open>
  \<^verbatim>\<open>json.loads\<close>: a text that starts with the byte order mark is rejected; otherwise
  one value is scanned, with white space before and behind it and nothing else. An
  exception raised by the scan is passed on.
\<close>

definition json_loads :: "pystr \<Rightarrow> error + json" where
  "json_loads s =
     (if starts_with [65279] s then Inl JSONDecodeError
      else case scan_once (2 * length s + 1) nesting_limit (skip_ws s) of
             Expecting \<Rightarrow> Inl JSONDecodeError
           | Raised e \<Rightarrow> Inl e
           | Unfinished \<Rightarrow> Inl OutOfFuel
           | Scanned obj rest \<Rightarrow>
               if skip_ws rest = [] then Inr obj else Inl JSONDecodeError)"

text \<open>
  \<^verbatim>\<open>json.dumps\<close> on a list of strings: \<^verbatim>\<open>encode_basestring_ascii\<close> keeps the
  printable ASCII characters but the quote and the backslash, and escapes every other
  character, one above \<^verbatim>\<open>U+FFFF\<close> as a surrogate pair; the items are joined by
  \<^verbatim>\<open>", "\<close> between brackets.
\<close>

definition hexdigit :: "nat \<Rightarrow> nat" where
  "hexdigit d = (if d < 10 then 48 + d else 87 + d)"

definition hex4str :: "nat \<Rightarrow> pystr" where
  "hex4str n =
     [hexdigit (n div 4096 mod 16), hexdigit (n div 256 mod 16),
      hexdigit (n div 16 mod 16), hexdigit (n mod 16)]"

definition escape_char :: "nat \<Rightarrow> pystr" where
  "escape_char c =
     (if c = 34 then [92, 34]
      else if c = 92 then [92, 92]
      else if c = 8 then [92, 98]
      else if c = 12 then [92, 102]
      else if c = 10 then [92, 110]
      else if c = 13 then [92, 114]
      else if c = 9 then [92, 116]
      else if 32 \<le> c \<and> c \<le> 126 then [c]
      else if c < 65536 then 92 # 117 # hex4str c
      else
        let n = c - 65536;
            s1 = 55296 + (n div 1024) mod 1024;
            s2 = 56320 + n mod 1024
        in 92 # 117 # hex4str s1 @ 92 # 117 # hex4str s2)"

definition encode_basestring_ascii :: "pystr \<Rightarrow> pystr" where
  "encode_basestring_ascii s = 34 # concat (map escape_char s) @ [34]"

fun join_items :: "pystr list \<Rightarrow> pystr" where
  "join_items [] = []"
| "join_items [x] = x"
| "join_items (x # y # ys) = x @ [44, 32] @ join_items (y # ys)"

definition json_dumps :: "pystr list \<Rightarrow> pystr" where
  "json_dumps xs = 91 # join_items (map encode_basestring_ascii xs) @ [93]"

text \<open>A string in which no high surrogate is followed at once by a low surrogate.\<close>

fun surrogate_pair_free :: "pystr \<Rightarrow> bool" where
  "surrogate_pair_free (a # b # s) =
     (\<not> (is_high_surrogate a \<and> is_low_surrogate b) \<and> surrogate_pair_free (b # s))"
| "surrogate_pair_free _ = True"

subsection \<open>Serialized list fields and \<^verbatim>\<open>FiveWhys.get_all_whys\<close>\<close>

text \<open>
  \<^verbatim>\<open>Project.get_team_members\<close>, \<^verbatim>\<open>FiveWhys.get_additional_whys\<close> and
  \<^verbatim>\<open>IshikawaCategory.get_causes_list\<close> with their setters. \<^verbatim>\<open>if not self.x\<close> holds
  for \<^verbatim>\<open>None\<close> and for the empty string. A getter returns what \<^verbatim>\<open>json.loads\<close>
  returns, whatever its type; \<^verbatim>\<open>except json.JSONDecodeError\<close> catches that error and
  no other. A setter takes a list of strings, as its annotation \<^verbatim>\<open>List[str]\<close> says.
\<close>

definition get_team_members :: "Project \<Rightarrow> error + json" where
  "get_team_members self =
     (case team_members self of
        None \<Rightarrow> Inr (JArray [])
      | Some blob \<Rightarrow>
          if blob = [] then Inr (JArray [])
          else (case json_loads blob of
                  Inr obj \<Rightarrow> Inr obj
                | Inl e \<Rightarrow> if e = JSONDecodeError then Inr (JArray []) else Inl e))"

definition set_team_members :: "Project \<Rightarrow> pystr list \<Rightarrow> Project" where
  "set_team_members self members = self\<lparr>team_members := Some (json_dumps members)\<rparr>"

definition set_additional_whys :: "FiveWhys \<Rightarrow> pystr list \<Rightarrow> FiveWhys" where
  "set_additional_whys self whys = self\<lparr>additional_whys := Some (json_dumps whys)\<rparr>"

definition get_additional_whys :: "FiveWhys \<Rightarrow> error + json" where
  "get_additional_whys self =
     (case additional_whys self of
        None \<Rightarrow> Inr (JArray [])
      | Some blob \<Rightarrow>
          if blob = [] then Inr (JArray [])
          else (case json_loads blob of
                  Inr obj \<Rightarrow> Inr obj
                | Inl e \<Rightarrow> if e = JSONDecodeError then Inr (JArray []) else Inl e))"

definition get_causes_list :: "IshikawaCategory \<Rightarrow> error + json" where
  "get_causes_list self =
     (case causes self of
        None \<Rightarrow> Inr (JArray [])
      | Some blob \<Rightarrow>
          if blob = [] then Inr (JArray [])
          else (case json_loads blob of
                  Inr obj \<Rightarrow> Inr obj
                | Inl e \<Rightarrow> if e = JSONDecodeError then Inr (JArray []) else Inl e))"

definition set_causes_list :: "IshikawaCategory \<Rightarrow> pystr list \<Rightarrow> IshikawaCategory" where
  "set_causes_list self cs = self\<lparr>causes := Some (json_dumps cs)\<rparr>"

text \<open>
  \<^verbatim>\<open>getattr(self, f"why_{i}")\<close> for \<open>i\<close> in \<^verbatim>\<open>range(1, 6)\<close>, and the items that
  \<^verbatim>\<open>list.extend\<close> takes from its argument: the elements of a list, the characters of a
  string, the keys of a dict; any other decoded value is not iterable.
\<close>

definition getattr_why :: "FiveWhys \<Rightarrow> nat \<Rightarrow> pystr option" where
  "getattr_why self i =
     (if i = 1 then why_1 self else if i = 2 then why_2 self else if i = 3 then why_3 self
      else if i = 4 then why_4 self else why_5 self)"

fun iterate :: "json \<Rightarrow> error + json list" where
  "iterate (JArray xs) = Inr xs"
| "iterate (JString s) = Inr (map (\<lambda>c. JString [c]) s)"
| "iterate (JObject items) = Inr (map (\<lambda>item. JString (fst item)) items)"
| "iterate JNull = Inl TypeError"
| "iterate (JBool b) = Inl TypeError"
| "iterate (JInt i) = Inl TypeError"
| "iterate (JFloat f) = Inl TypeError"

definition get_all_whys :: "FiveWhys \<Rightarrow> error + json list" where
  "get_all_whys self =
     (let whys =
            fold (\<lambda>i whys.
                    case getattr_why self i of
                      None \<Rightarrow> whys
                    | Some why \<Rightarrow> if why = [] then whys else whys @ [JString why])
              [1..<6] []
      in case additional_whys self of
           None \<Rightarrow> Inr whys
         | Some blob \<Rightarrow>
             if blob = [] then Inr whys
             else (case json_loads blob of
                     Inl e \<Rightarrow> if e = JSONDecodeError then Inr whys else Inl e
                   | Inr additional \<Rightarrow>
                       (case iterate additional of
                          Inl e \<Rightarrow> Inl e
                        | Inr items \<Rightarrow> Inr (whys @ items))))"

text \<open>
  The analysis of the specification's example (\<^verbatim>\<open>why_1 = "A"\<close>, \<^verbatim>\<open>why_3 = "C"\<close>,
  additional whys \<^verbatim>\<open>["D"]\<close>), and one with an empty second slot and an empty
  additional why.
\<close>

definition example_five_whys :: FiveWhys where
  "example_five_whys =
     set_additional_whys
       (new_FiveWhys\<lparr>why_1 := Some (str ''A''), why_3 := Some (str ''C'')\<rparr>) [str ''D'']"


text \<open>
  Two blobs that a \<^verbatim>\<open>Text\<close> column can hold: the digit 9 written 4301 times, and the
  opening bracket written 1000 times.
\<close>

definition long_int_blob :: pystr where
  "long_int_blob = replicate 4301 57"

definition deep_blob :: pystr where
  "deep_blob = replicate 1000 91"

section \<open>Properties of the progress aggregation\<close>

lemma calculate_progress_counts:
  "calculate_progress p =
     (if total_children p = 0 then (0, p)
      else
        let progress =
              float_int (float_mul (float_truediv (completed_children p) (total_children p))
                (float_of_nat 100))
        in (progress, p\<lparr>progress_percentage := Some progress\<rparr>))"
  by (cases "five_whys p = []"; cases "ishikawa_diagrams p = []"; cases "action_plans p = []")
     (simp_all add: calculate_progress_def total_children_def completed_children_def)

lemma total_children_project_with: "total_children (project_with n m) = n + m"
  by (simp add: total_children_def project_with_def new_Project_def)

lemma completed_children_project_with: "completed_children (project_with n m) = n"
  by (simp add: completed_children_def project_with_def new_Project_def new_FiveWhys_def
      truthy_bool_def)

lemma float_percentage_29_of_50:
  "float_int (float_mul (float_truediv 29 50) (float_of_nat 100)) = 57"
  by (simp add: float_int_def float_mul_def float_truediv_def float_of_nat_def round53_def
      rne_div_def bit_length.simps Let_def)

lemma float_percentage_2_of_3:
  "float_int (float_mul (float_truediv 2 3) (float_of_nat 100)) = 66"
  by (simp add: float_int_def float_mul_def float_truediv_def float_of_nat_def round53_def
      rne_div_def bit_length.simps Let_def)

text \<open>
  The two roundings of \<^verbatim>\<open>(29 / 50) * 100\<close>, checked against the definition of the
  nearest double: the quotient is the 53-bit mantissa \<open>m\<close> with \<open>|m / 2^53 - 29/50|\<close> below
  half a unit in the last place, the product is the 53-bit mantissa \<open>m'\<close> with
  \<open>|m' / 2^47 - 100 * m / 2^53|\<close> below half a unit in the last place, and \<open>m' / 2^47\<close>
  lies between 57 and 58.
\<close>

lemma float_truediv_29_50_nearest:
  "float_truediv 29 50 = (5224175567749775, -53)
   \<and> (2::int) ^ 52 \<le> 5224175567749775 \<and> (5224175567749775::int) < 2 ^ 53
   \<and> 2 * \<bar>50 * 5224175567749775 - 29 * (2::int) ^ 53\<bar> < 50"
  by (simp add: float_truediv_def round53_def rne_div_def bit_length.simps Let_def)

lemma float_mul_100_nearest:
  "float_mul (5224175567749775, -53) (float_of_nat 100) = (8162774324609023, -47)
   \<and> (2::int) ^ 52 \<le> 8162774324609023 \<and> (8162774324609023::int) < 2 ^ 53
   \<and> 2 * \<bar>64 * 8162774324609023 - 100 * (5224175567749775::int)\<bar> < 64
   \<and> 57 * (2::int) ^ 47 \<le> 8162774324609023 \<and> (8162774324609023::int) < 58 * 2 ^ 47"
  by (simp add: float_mul_def float_of_nat_def round53_def rne_div_def bit_length.simps Let_def)

lemma calculate_progress_1_of_2: "fst (calculate_progress (project_with 1 1)) = 50"
  by (simp add: calculate_progress_counts total_children_project_with
      completed_children_project_with float_int_def float_mul_def float_truediv_def
      float_of_nat_def round53_def rne_div_def bit_length.simps Let_def)

lemma calculate_progress_no_children:
  "total_children p = 0 \<Longrightarrow> fst (calculate_progress p) = 0"
  by (simp add: calculate_progress_counts)

lemma calculate_progress_2_of_3: "fst (calculate_progress (project_with 2 1)) = 66"
  by (simp add: calculate_progress_counts total_children_project_with
      completed_children_project_with float_percentage_2_of_3)

lemma calculate_progress_writes_back:
  "total_children p \<noteq> 0 \<Longrightarrow>
     progress_percentage (snd (calculate_progress p)) = Some (fst (calculate_progress p))"
  by (simp add: calculate_progress_counts Let_def)

text \<open>
  C1. The claim: \<^verbatim>\<open>calculate_progress()\<close> returns \<open>floor (100 * completed / total)\<close> for
  every \<open>completed \<le> total\<close>. The method computes \<^verbatim>\<open>int((completed / total) * 100)\<close>
  in binary floating point. For a project with 50 Five Whys analyses of which 29 are
  completed, the quotient \<open>0.58\<close> rounds to a double just below \<open>0.58\<close>, the product with
  \<open>100\<close> rounds to \<open>57.99999999999999\<close>, and the method returns 57, where the exact
  percentage is 58.
\<close>

theorem calculate_progress_29_of_50:
  "fst (calculate_progress (project_with 29 21)) = 57
   \<and> floor_percentage (completed_children (project_with 29 21))
        (total_children (project_with 29 21)) = 58"
  by (simp add: calculate_progress_counts total_children_project_with
      completed_children_project_with float_percentage_29_of_50 floor_percentage_def)

text \<open>
  C3. The claim: after every call of \<^verbatim>\<open>calculate_progress()\<close> the field
  \<^verbatim>\<open>progress_percentage\<close> holds the value returned, also for a project without children.
  The method returns 0 for a project without children before it reaches the assignment:
  the sample project, created with 35 and without children, returns 0 and keeps 35.
\<close>

theorem calculate_progress_no_children_keeps_field:
  "fst (calculate_progress seed_project) = 0
   \<and> progress_percentage (snd (calculate_progress seed_project)) = Some 35"
  by (simp add: calculate_progress_counts total_children_def seed_project_def
      new_Project_def)

section \<open>Properties of the generic repository\<close>



lemma fold_delete_row:
  "fold delete_row L db m = filter (\<lambda>e. (m, getattr e ''id'') \<notin> set L) (db m)"
proof (induction L arbitrary: db)
  case Nil
  then show ?case by simp
next
  case (Cons x L)
  obtain m' i where x: "x = (m', i)" by (cases x)
  show ?case
    by (simp add: Cons.IH) (auto simp: x delete_row_def intro: filter_cong)
qed

lemma cascade_objects_same_model:
  "(m, j) \<in> set (cascade_objects 2 m i db) \<longleftrightarrow> j = i"
  by (cases m) (auto simp: eval_nat_numeral)

lemma cascade_objects_self: "(m, i) \<in> set (cascade_objects n m i db)"
  by (cases n) auto

lemma cascade_objects_child:
  assumes "(cm, fk) \<in> set (cascades m)" and "e \<in> set (children cm fk i db)"
  shows "set (cascade_objects n cm (getattr e ''id'') db)
           \<subseteq> set (cascade_objects (Suc n) m i db)"
  using assms by force

lemma cascade_objects_grandchild:
  assumes "(cm, fk) \<in> set (cascades m)" and "d \<in> set (children cm fk i db)"
    and "(gm, gfk) \<in> set (cascades cm)"
    and "c \<in> set (children gm gfk (getattr d ''id'') db)"
  shows "(gm, getattr c ''id'') \<in> set (cascade_objects (Suc (Suc n)) m i db)"
proof -
  have "(gm, getattr c ''id'') \<in> set (cascade_objects n gm (getattr c ''id'') db)"
    by (rule cascade_objects_self)
  then have "(gm, getattr c ''id'')
      \<in> set (cascade_objects (Suc n) cm (getattr d ''id'') db)"
    using cascade_objects_child [OF assms(3) assms(4)] by blast
  then show ?thesis
    using cascade_objects_child [OF assms(1) assms(2)] by blast
qed

text \<open>Following the cascades deeper than 2 marks nothing more.\<close>

lemma cascade_objects_depth:
  "cascade_objects (Suc (Suc (Suc n))) m i db = cascade_objects 2 m i db"
  by (cases m) (simp_all add: eval_nat_numeral)

lemma get_by_id_None:
  "get_by_id m i db = None \<longleftrightarrow> (\<forall>e \<in> set (db m). getattr e ''id'' \<noteq> i)"
  by (auto simp: get_by_id_def find_None_iff)

lemma get_by_id_Some_id: "get_by_id m i db = Some obj \<Longrightarrow> getattr obj ''id'' = i"
  by (auto simp: get_by_id_def find_Some_iff)

lemma session_delete_table:
  "session_delete m obj db m' =
     filter (\<lambda>e. (m', getattr e ''id'') \<notin> set (cascade_objects 2 m (getattr obj ''id'') db))
       (db m')"
  by (simp add: session_delete_def fold_delete_row)

lemma marked_row_gone:
  assumes "get_by_id m i db = Some obj" and "(m', j) \<in> set (cascade_objects 2 m i db)"
  shows "get_by_id m' j (snd (delete m i db)) = None"
  using assms
  by (auto simp: delete_def get_by_id_None session_delete_table get_by_id_Some_id)

lemmas demo_simps = demo_db_def get_by_id_def getattr_def children_def str_def

text \<open>
  C4. When a persisted project is deleted through its repository, every Five Whys
  analysis, every Ishikawa diagram with every category of it, and every action plan with
  every task of it that the project owned can no longer be found by its id.
\<close>

theorem delete_project_cascades:
  assumes "get_by_id ProjectM pid db = Some p"
  shows "(\<forall>fw \<in> set (children FiveWhysM ''project_id'' pid db).
            get_by_id FiveWhysM (getattr fw ''id'') (snd (delete ProjectM pid db)) = None)
       \<and> (\<forall>d \<in> set (children IshikawaDiagramM ''project_id'' pid db).
            get_by_id IshikawaDiagramM (getattr d ''id'') (snd (delete ProjectM pid db)) = None
            \<and> (\<forall>c \<in> set (children IshikawaCategoryM ''diagram_id'' (getattr d ''id'') db).
                 get_by_id IshikawaCategoryM (getattr c ''id'')
                   (snd (delete ProjectM pid db)) = None))
       \<and> (\<forall>ap \<in> set (children ActionPlanM ''project_id'' pid db).
            get_by_id ActionPlanM (getattr ap ''id'') (snd (delete ProjectM pid db)) = None
            \<and> (\<forall>t \<in> set (children ActionPlanTaskM ''action_plan_id'' (getattr ap ''id'') db).
                 get_by_id ActionPlanTaskM (getattr t ''id'')
                   (snd (delete ProjectM pid db)) = None))"
proof -
  have child: "get_by_id cm (getattr e ''id'') (snd (delete ProjectM pid db)) = None"
    if "(cm, fk) \<in> set (cascades ProjectM)" and "e \<in> set (children cm fk pid db)" for cm fk e
  proof -
    have "(cm, getattr e ''id'') \<in> set (cascade_objects (Suc (Suc 0)) ProjectM pid db)"
      using cascade_objects_child [OF that, of "Suc 0"] cascade_objects_self by blast
    then show ?thesis
      using marked_row_gone [OF assms] by (simp add: eval_nat_numeral)
  qed
  have grandchild: "get_by_id gm (getattr c ''id'') (snd (delete ProjectM pid db)) = None"
    if "(cm, fk) \<in> set (cascades ProjectM)" and "d \<in> set (children cm fk pid db)"
      and "(gm, gfk) \<in> set (cascades cm)"
      and "c \<in> set (children gm gfk (getattr d ''id'') db)"
    for cm fk d gm gfk c
    using cascade_objects_grandchild [OF that, of 0] marked_row_gone [OF assms]
    by (simp add: eval_nat_numeral)
  show ?thesis
    using child [of FiveWhysM "''project_id''"] child [of IshikawaDiagramM "''project_id''"]
      child [of ActionPlanM "''project_id''"]
      grandchild [of IshikawaDiagramM "''project_id''" _ IshikawaCategoryM "''diagram_id''"]
      grandchild [of ActionPlanM "''project_id''" _ ActionPlanTaskM "''action_plan_id''"]
    by simp
qed

theorem delete_project_cascades_witness:
  "get_by_id ProjectM (VStr (str ''p1'')) demo_db
     = Some [(''id'', VStr (str ''p1'')), (''name'', VStr (str ''Line 3''))]
   \<and> get_by_id FiveWhysM (VStr (str ''f1''))
       (snd (delete ProjectM (VStr (str ''p1'')) demo_db)) = None
   \<and> get_by_id FiveWhysM (VStr (str ''f3''))
       (snd (delete ProjectM (VStr (str ''p1'')) demo_db)) = None
   \<and> get_by_id IshikawaDiagramM (VStr (str ''d1''))
       (snd (delete ProjectM (VStr (str ''p1'')) demo_db)) = None
   \<and> get_by_id IshikawaCategoryM (VStr (str ''c1''))
       (snd (delete ProjectM (VStr (str ''p1'')) demo_db)) = None
   \<and> get_by_id ActionPlanM (VStr (str ''a1''))
       (snd (delete ProjectM (VStr (str ''p1'')) demo_db)) = None
   \<and> get_by_id ActionPlanTaskM (VStr (str ''t1''))
       (snd (delete ProjectM (VStr (str ''p1'')) demo_db)) = None"
proof -
  have p: "get_by_id ProjectM (VStr (str ''p1'')) demo_db
     = Some [(''id'', VStr (str ''p1'')), (''name'', VStr (str ''Line 3''))]"
    by (simp add: demo_simps)
  have f: "children FiveWhysM ''project_id'' (VStr (str ''p1'')) demo_db =
     [[(''id'', VStr (str ''f1'')), (''project_id'', VStr (str ''p1'')),
       (''is_completed'', VBool True)],
      [(''id'', VStr (str ''f3'')), (''project_id'', VStr (str ''p1'')),
       (''is_completed'', VBool False)]]"
    by (simp add: demo_simps)
  have d: "children IshikawaDiagramM ''project_id'' (VStr (str ''p1'')) demo_db =
     [[(''id'', VStr (str ''d1'')), (''project_id'', VStr (str ''p1''))]]"
    by (simp add: demo_simps)
  have c: "children IshikawaCategoryM ''diagram_id'' (VStr (str ''d1'')) demo_db =
     [[(''id'', VStr (str ''c1'')), (''diagram_id'', VStr (str ''d1'')),
       (''name'', VStr (str ''People''))]]"
    by (simp add: demo_simps)
  have a: "children ActionPlanM ''project_id'' (VStr (str ''p1'')) demo_db =
     [[(''id'', VStr (str ''a1'')), (''project_id'', VStr (str ''p1''))]]"
    by (simp add: demo_simps)
  have t: "children ActionPlanTaskM ''action_plan_id'' (VStr (str ''a1'')) demo_db =
     [[(''id'', VStr (str ''t1'')), (''action_plan_id'', VStr (str ''a1''))]]"
    by (simp add: demo_simps)
  show ?thesis
    using delete_project_cascades [OF p] p
    by (simp add: f d c a t getattr_def)
qed



text \<open>
  C8. \<^verbatim>\<open>delete\<close> reports whether a row with the id was found: when there is none it
  returns \<open>False\<close> and the database is unchanged; when there is one it returns \<open>True\<close>,
  the id can no longer be found, and the table has lost the rows with that id and no
  other row.
\<close>

theorem delete_result:
  "(get_by_id m record_id db = None \<longrightarrow> delete m record_id db = (False, db))
   \<and> (get_by_id m record_id db \<noteq> None \<longrightarrow>
        fst (delete m record_id db) = True
        \<and> get_by_id m record_id (snd (delete m record_id db)) = None
        \<and> get_all m (snd (delete m record_id db))
            = filter (\<lambda>e. getattr e ''id'' \<noteq> record_id) (get_all m db))"
proof (cases "get_by_id m record_id db")
  case None
  then show ?thesis by (simp add: delete_def)
next
  case (Some obj)
  have i: "getattr obj ''id'' = record_id" using Some by (rule get_by_id_Some_id)
  have t: "snd (delete m record_id db) m = filter (\<lambda>e. getattr e ''id'' \<noteq> record_id) (db m)"
    by (simp add: delete_def Some session_delete_table i cascade_objects_same_model)
  show ?thesis
    using Some t by (simp add: get_by_id_None get_all_def delete_def)
qed

theorem delete_result_witness:
  "delete FiveWhysM (VStr (str ''zz'')) demo_db = (False, demo_db)
   \<and> fst (delete FiveWhysM (VStr (str ''f2'')) demo_db) = True
   \<and> get_all FiveWhysM (snd (delete FiveWhysM (VStr (str ''f2'')) demo_db)) =
     [[(''id'', VStr (str ''f1'')), (''project_id'', VStr (str ''p1'')),
       (''is_completed'', VBool True)],
      [(''id'', VStr (str ''f3'')), (''project_id'', VStr (str ''p1'')),
       (''is_completed'', VBool False)]]"
proof -
  have n: "get_by_id FiveWhysM (VStr (str ''zz'')) demo_db = None"
    by (simp add: demo_simps)
  have s: "get_by_id FiveWhysM (VStr (str ''f2'')) demo_db \<noteq> None"
    by (simp add: demo_simps)
  show ?thesis
    using delete_result [of FiveWhysM "VStr (str ''zz'')" demo_db]
      delete_result [of FiveWhysM "VStr (str ''f2'')" demo_db] n s
    by (simp add: get_all_def demo_db_def getattr_def str_def)
qed

section \<open>Properties of the completion handlers\<close>

text \<open>For a saved artifact and the answer Yes, the flag is set and the row is written.\<close>

lemma mark_complete_saved:
  assumes "artifact self = Some a" and "truthy (getattr a ''id'')"
  shows "artifact (fst (mark_complete k Yes now (self, db)))
           = Some (setattr a ''is_completed'' (VBool True))
       \<and> snd (mark_complete k Yes now (self, db))
           = update (repository_model k) now (setattr a ''is_completed'' (VBool True)) db"
  using assms by (simp add: mark_complete_def Let_def split: option.splits)

lemma mark_complete_declined:
  assumes "artifact self = Some a" and "truthy (getattr a ''id'')"
  shows "mark_complete k No now (self, db)
         = (self\<lparr>shown := shown self @ [(Question, ''Mark as Complete'', question_text k)]\<rparr>,
            db)"
  using assms by (simp add: mark_complete_def Let_def)

text \<open>
  C9. For an artifact that has not been persisted (the view holds no artifact, or one
  whose id is unset or empty), \<^verbatim>\<open>mark_complete\<close> only shows the warning "Not Saved":
  the artifact, and with it \<^verbatim>\<open>is_completed\<close>, is unchanged and nothing is written to
  the database. Whenever the call changes the artifact or the database, the artifact had
  an id.
\<close>

theorem mark_complete_requires_id:
  "((artifact self = None \<or> (\<exists>a. artifact self = Some a \<and> \<not> truthy (getattr a ''id''))) \<longrightarrow>
      mark_complete k reply now (self, db) =
        (self\<lparr>shown := shown self @ [(Warning, ''Not Saved'', not_saved_text k)]\<rparr>, db))
   \<and> ((artifact (fst (mark_complete k reply now (self, db))) \<noteq> artifact self
        \<or> snd (mark_complete k reply now (self, db)) \<noteq> db) \<longrightarrow>
       (\<exists>a. artifact self = Some a \<and> truthy (getattr a ''id'')))"
  by (cases "artifact self") (auto simp: mark_complete_def Let_def split: option.splits)

theorem mark_complete_requires_id_witness:
  "mark_complete FiveWhysView Yes (VInt 7) (unsaved_view, demo_db) =
     (unsaved_view\<lparr>shown := [(Warning, ''Not Saved'', ''Please save the analysis first.'')]\<rparr>,
      demo_db)"
  using mark_complete_requires_id [of unsaved_view FiveWhysView Yes "VInt 7" demo_db]
  by (simp add: unsaved_view_def getattr_def)

section \<open>Properties of the JSON codec\<close>

lemma append_char_Some:
  "append_char c res = Some (x, r) \<longleftrightarrow> (\<exists>x'. res = Some (x', r) \<and> x = c # x')"
  by (auto simp: append_char_def split: option.splits)

lemma scanstring_length: "scanstring s = Some (x, r) \<Longrightarrow> length r < length s"
proof (induction s arbitrary: x r rule: length_induct)
  case (1 s)
  have IH: "length r' < length s"
    if "scanstring ys = Some (x', r')" and "length ys < length s" for ys x' r'
    using 1(1) that by fastforce
  show ?case
  proof (cases s)
    case Nil
    with 1(2) show ?thesis by simp
  next
    case (Cons c s')
    show ?thesis
      using 1(2) unfolding Cons scanstring.simps
      by (auto simp: append_char_Some Cons split: if_splits list.splits option.splits dest!: IH)
  qed
qed

lemma skip_ws_length: "length (skip_ws s) \<le> length s"
  by (simp add: skip_ws_def length_dropWhile_le)

lemma match_fraction_length: "match_fraction s = (f, r) \<Longrightarrow> length r \<le> length s"
  by (auto simp: match_fraction_def split: list.splits if_splits
      intro: le_trans [OF length_dropWhile_le])

lemma match_exponent_length: "match_exponent s = (f, r) \<Longrightarrow> length r \<le> length s"
  by (auto simp: match_exponent_def Let_def split: list.splits if_splits
      intro: le_trans [OF length_dropWhile_le])

lemma match_number_length:
  assumes "match_number s = Scanned v r"
  shows "length r < length s"
proof -
  define sg :: pystr where "sg = (if s \<noteq> [] \<and> hd s = 45 then [45] else [])"
  define s1 where "s1 = drop (length sg) s"
  from assms obtain d r0 where s1: "s1 = d # r0" and d: "is_digit d"
    by (auto simp: match_number_def Let_def sg_def s1_def split: list.splits if_splits)
  define r1 where "r1 = (if d = 48 then r0 else dropWhile is_digit s1)"
  obtain frac r2 where f: "match_fraction r1 = (frac, r2)" by (cases "match_fraction r1")
  obtain ex r3 where e: "match_exponent r2 = (ex, r3)" by (cases "match_exponent r2")
  have "r = r3"
    using assms s1 d f e
    by (auto simp: match_number_def Let_def sg_def [symmetric] s1_def [symmetric] r1_def
        split: if_splits)
  moreover have "length r1 \<le> length r0"
    using d by (simp add: r1_def s1 length_dropWhile_le)
  moreover have "length r0 < length s"
    using s1 by (auto simp: s1_def dest: arg_cong [where f = length])
  ultimately show ?thesis
    using match_fraction_length [OF f] match_exponent_length [OF e] by simp
qed

lemma starts_with_length: "starts_with p s \<Longrightarrow> length p \<le> length s"
  by (metis starts_with_def length_take min.cobounded1 min_def nat_le_linear)

lemma scan_constant_length:
  assumes "scan_constant s = Scanned v r"
  shows "length r < length s"
  using assms
  by (auto simp: scan_constant_def str_def split: if_splits scan.splits
      dest: starts_with_length match_number_length)

lemma match_number_finishes: "match_number s \<noteq> Unfinished"
  by (simp add: match_number_def Let_def split: list.splits prod.splits)

lemma scan_constant_finishes: "scan_constant s \<noteq> Unfinished"
  using match_number_finishes [of s] by (simp add: scan_constant_def split: scan.splits)

lemma skip_ws_Cons: "skip_ws r = c # r1 \<Longrightarrow> length r1 < length r"
  using skip_ws_length [of r] by simp

lemma scan_length:
  "(\<forall>d s v r. scan_once n d s = Scanned v r \<longrightarrow> length r < length s)
   \<and> (\<forall>d s v r. JSONArray_loop n d s = Scanned v r \<longrightarrow> length r < length s)
   \<and> (\<forall>d s v r. JSONObject_loop n d s = Scanned v r \<longrightarrow> length r < length s)"
proof (induction n)
  case 0
  show ?case by simp
next
  case (Suc n)
  have once: "length r < length s" if "scan_once n d s = Scanned v r" for d s v r
    using Suc that by blast
  have arr: "length r < length s" if "JSONArray_loop n d s = Scanned v r" for d s v r
    using Suc that by blast
  have obj: "length r < length s" if "JSONObject_loop n d s = Scanned v r" for d s v r
    using Suc that by blast
  have 1: "length r < length s" if "scan_once (Suc n) d s = Scanned v r" for d s v r
    using that
    by (auto split: list.splits if_splits option.splits scan.splits nat.splits
        dest!: scanstring_length skip_ws_Cons arr obj scan_constant_length)
  have 2: "length r < length s" if "JSONArray_loop (Suc n) d s = Scanned v r" for d s v r
    using that skip_ws_length
    by (auto split: list.splits if_splits option.splits scan.splits
        dest!: skip_ws_Cons arr once) (meson le_less_trans less_imp_le less_trans)
  have 3: "length r < length s" if "JSONObject_loop (Suc n) d s = Scanned v r" for d s v r
    using that skip_ws_length
    by (auto split: list.splits if_splits option.splits scan.splits
        dest!: scanstring_length skip_ws_Cons obj once) (meson le_less_trans less_imp_le less_trans)+
  show ?case using 1 2 3 by blast
qed

lemma scan_once_length: "scan_once n d s = Scanned v r \<Longrightarrow> length r < length s"
  using scan_length by blast

lemma JSONArray_loop_length: "JSONArray_loop n d s = Scanned v r \<Longrightarrow> length r < length s"
  using scan_length by blast

lemma JSONObject_loop_length: "JSONObject_loop n d s = Scanned v r \<Longrightarrow> length r < length s"
  using scan_length by blast

lemma scan_fuel:
  "(\<forall>d s. 2 * length s < n \<longrightarrow> scan_once n d s \<noteq> Unfinished)
   \<and> (\<forall>d s. 2 * length s + 1 < n \<longrightarrow> JSONArray_loop n d s \<noteq> Unfinished)
   \<and> (\<forall>d s. 2 * length s + 1 < n \<longrightarrow> JSONObject_loop n d s \<noteq> Unfinished)"
proof (induction n)
  case 0
  show ?case by simp
next
  case (Suc n)
  have once: "scan_once n d s \<noteq> Unfinished" if "2 * length s < n" for d s
    using Suc that by blast
  have arr: "JSONArray_loop n d s \<noteq> Unfinished" if "2 * length s + 1 < n" for d s
    using Suc that by blast
  have obj: "JSONObject_loop n d s \<noteq> Unfinished" if "2 * length s + 1 < n" for d s
    using Suc that by blast
  have 1: "scan_once (Suc n) d s \<noteq> Unfinished" if "2 * length s < Suc n" for d s
  proof (cases s)
    case Nil
    then show ?thesis by simp
  next
    case (Cons c r)
    have a: "JSONArray_loop n d' (skip_ws r) \<noteq> Unfinished" for d'
      using that skip_ws_length [of r] by (intro arr) (simp add: Cons)
    have o: "JSONObject_loop n d' r1 \<noteq> Unfinished" if "skip_ws r = c1 # r1" for d' c1 r1
      using \<open>2 * length s < Suc n\<close> skip_ws_Cons [OF that] by (intro obj) (simp add: Cons)
    show ?thesis
      using a o scan_constant_finishes [of s]
      by (auto simp: Cons split: list.splits option.splits scan.splits nat.splits)
  qed
  have 2: "JSONArray_loop (Suc n) d s \<noteq> Unfinished" if "2 * length s + 1 < Suc n" for d s
  proof -
    have a: "scan_once n d s \<noteq> Unfinished" using that by (intro once) simp
    have b: "JSONArray_loop n d (skip_ws r1) \<noteq> Unfinished"
      if "scan_once n d s = Scanned v r" and "skip_ws r = c # r1" for v r c r1
      using \<open>2 * length s + 1 < Suc n\<close> scan_once_length [OF that(1)] skip_ws_Cons [OF that(2)]
        skip_ws_length [of r1]
      by (intro arr) simp
    show ?thesis
      using a b by (auto split: list.splits option.splits scan.splits)
  qed
  have 3: "JSONObject_loop (Suc n) d s \<noteq> Unfinished" if "2 * length s + 1 < Suc n" for d s
  proof -
    have a: "scan_once n d (skip_ws r1) \<noteq> Unfinished"
      if "scanstring s = Some (key, r)" and "skip_ws r = c # r1" for key r c r1
      using \<open>2 * length s + 1 < Suc n\<close> scanstring_length [OF that(1)] skip_ws_Cons [OF that(2)]
        skip_ws_length [of r1]
      by (intro once) simp
    have b: "JSONObject_loop n d r4 \<noteq> Unfinished"
      if "scanstring s = Some (key, r)" and "skip_ws r = c # r1"
        and "scan_once n d (skip_ws r1) = Scanned v r2" and "skip_ws r2 = c2 # r3"
        and "skip_ws r3 = c3 # r4" for key r c r1 v r2 c2 r3 c3 r4
      using \<open>2 * length s + 1 < Suc n\<close> scanstring_length [OF that(1)] skip_ws_Cons [OF that(2)]
        skip_ws_length [of r1] scan_once_length [OF that(3)] skip_ws_Cons [OF that(4)]
        skip_ws_Cons [OF that(5)]
      by (intro obj) simp
    show ?thesis
      using a by (auto split: list.splits option.splits scan.splits dest: b)
  qed
  show ?case using 1 2 3 by blast
qed

lemma match_number_raises: "match_number s = Raised e \<Longrightarrow> e = ValueError"
  by (auto simp: match_number_def Let_def split: list.splits prod.splits if_splits)

lemma scan_constant_raises: "scan_constant s = Raised e \<Longrightarrow> e = ValueError"
  by (auto simp: scan_constant_def split: if_splits scan.splits dest: match_number_raises)

lemma scan_raises:
  "(\<forall>d s e. scan_once n d s = Raised e \<longrightarrow> e = ValueError \<or> e = RecursionError)
   \<and> (\<forall>d s e. JSONArray_loop n d s = Raised e \<longrightarrow> e = ValueError \<or> e = RecursionError)
   \<and> (\<forall>d s e. JSONObject_loop n d s = Raised e \<longrightarrow> e = ValueError \<or> e = RecursionError)"
proof (induction n)
  case 0
  show ?case by simp
next
  case (Suc n)
  have once: "e = ValueError \<or> e = RecursionError" if "scan_once n d s = Raised e" for d s e
    using Suc that by blast
  have arr: "e = ValueError \<or> e = RecursionError" if "JSONArray_loop n d s = Raised e" for d s e
    using Suc that by blast
  have obj: "e = ValueError \<or> e = RecursionError" if "JSONObject_loop n d s = Raised e" for d s e
    using Suc that by blast
  have 1: "e = ValueError \<or> e = RecursionError" if "scan_once (Suc n) d s = Raised e" for d s e
    using that
    by (auto split: list.splits if_splits option.splits scan.splits nat.splits
        dest: arr obj scan_constant_raises)
  have 2: "e = ValueError \<or> e = RecursionError" if "JSONArray_loop (Suc n) d s = Raised e" for d s e
    using that
    by (auto split: list.splits if_splits option.splits scan.splits dest: arr once)
  have 3: "e = ValueError \<or> e = RecursionError" if "JSONObject_loop (Suc n) d s = Raised e" for d s e
    using that
    by (auto split: list.splits if_splits option.splits scan.splits dest: obj once)
  show ?case using 1 2 3 by blast
qed

lemma json_loads_returns: "json_loads s \<noteq> Inl OutOfFuel"
proof -
  have "scan_once (2 * length s + 1) nesting_limit (skip_ws s) \<noteq> Unfinished"
    using scan_fuel skip_ws_length [of s]
    by (metis add_lessD1 less_add_one mult_le_mono2 order_le_less_trans)
  moreover have "scan_once (2 * length s + 1) nesting_limit (skip_ws s) \<noteq> Raised OutOfFuel"
    using scan_raises by blast
  ultimately show "json_loads s \<noteq> Inl OutOfFuel"
    by (auto simp: json_loads_def split: scan.splits)
qed

lemma hexval_hexdigit: "d < 16 \<Longrightarrow> hexval (hexdigit d) = Some d"
  by (auto simp: hexval_def hexdigit_def)

lemma hex4_sum:
  fixes n :: nat
  assumes "n < 65536"
  shows "4096 * (n div 4096 mod 16) + 256 * (n div 256 mod 16) + 16 * (n div 16 mod 16)
           + n mod 16 = n"
proof -
  have a: "n div 4096 mod 16 = n div 4096"
    using assms by (simp add: div_less_iff_less_mult)
  have b: "n div 256 = n div 16 div 16" "n div 4096 = n div 256 div 16"
    by (simp_all add: div_mult2_eq [symmetric])
  have d1: "16 * (n div 16) + n mod 16 = n" by simp
  have d2: "16 * (n div 256) + n div 16 mod 16 = n div 16"
    unfolding b by simp
  have d3: "16 * (n div 4096) + n div 256 mod 16 = n div 256"
    unfolding b by simp
  have "4096 * (n div 4096) + 256 * (n div 256 mod 16) + 16 * (n div 16 mod 16) + n mod 16
      = 256 * (16 * (n div 4096) + n div 256 mod 16) + 16 * (n div 16 mod 16) + n mod 16"
    by simp
  also have "\<dots> = 16 * (16 * (n div 256) + n div 16 mod 16) + n mod 16"
    unfolding d3 by simp
  also have "\<dots> = n"
    unfolding d2 by (rule d1)
  finally have "4096 * (n div 4096) + 256 * (n div 256 mod 16) + 16 * (n div 16 mod 16)
      + n mod 16 = n" .
  then show ?thesis
    unfolding a .
qed

lemma hex4_hex4str:
  assumes "n < 65536" shows "hex4 (hex4str n) = Some n"
  using hex4_sum [OF assms] assms
  by (simp add: hex4str_def hexval_hexdigit div_less_iff_less_mult)

lemma length_hex4str [simp]: "length (hex4str n) = 4"
  by (simp add: hex4str_def)

lemma scanstring_u_escape:
  assumes "n < 65536" and "\<not> (is_high_surrogate n \<and> take 2 t = [92, 117])"
  shows "scanstring (92 # 117 # hex4str n @ t) = append_char n (scanstring t)"
  using assms by (auto simp: hex4_hex4str)

lemma scanstring_u_escape_high:
  assumes "n < 65536" and "hex4 (take 4 (drop 2 t)) = Some u" and "\<not> is_low_surrogate u"
  shows "scanstring (92 # 117 # hex4str n @ t) = append_char n (scanstring t)"
  using assms by (auto simp: hex4_hex4str)

lemma scanstring_pair:
  assumes "is_high_surrogate h" and "is_low_surrogate l"
  shows "scanstring (92 # 117 # hex4str h @ 92 # 117 # hex4str l @ t)
         = append_char (65536 + ((h - 55296) * 1024 + (l - 56320))) (scanstring t)"
proof -
  have "h < 65536" "l < 65536"
    using assms by (simp_all add: is_high_surrogate_def is_low_surrogate_def)
  then show ?thesis
    using assms by (simp add: hex4_hex4str)
qed

lemma high_surrogate_of:
  assumes "65536 \<le> c" and "c < 1114112"
  shows "is_high_surrogate (55296 + (c - 65536) div 1024 mod 1024)"
    and "is_low_surrogate (56320 + (c - 65536) mod 1024)"
    and "65536 + ((55296 + (c - 65536) div 1024 mod 1024 - 55296) * 1024
           + (56320 + (c - 65536) mod 1024 - 56320)) = c"
proof -
  have "(c - 65536) div 1024 < 1024"
    using assms by (simp add: div_less_iff_less_mult)
  then have m: "(c - 65536) div 1024 mod 1024 = (c - 65536) div 1024"
    by simp
  show "is_high_surrogate (55296 + (c - 65536) div 1024 mod 1024)"
    using \<open>(c - 65536) div 1024 < 1024\<close> by (simp add: is_high_surrogate_def m)
  show "is_low_surrogate (56320 + (c - 65536) mod 1024)"
    by (simp add: is_low_surrogate_def)
  have "(c - 65536) div 1024 * 1024 + (c - 65536) mod 1024 = c - 65536"
    by simp
  then show "65536 + ((55296 + (c - 65536) div 1024 mod 1024 - 55296) * 1024
           + (56320 + (c - 65536) mod 1024 - 56320)) = c"
    using assms by (simp add: m)
qed

lemma scanstring_escape_char:
  assumes "c < 1114112"
    and "is_high_surrogate c \<Longrightarrow> take 2 t = [92, 117] \<Longrightarrow>
           \<exists>u. hex4 (take 4 (drop 2 t)) = Some u \<and> \<not> is_low_surrogate u"
  shows "scanstring (escape_char c @ t) = append_char c (scanstring t)"
proof -
  consider (special) "c \<in> {34, 92, 8, 12, 10, 13, 9}"
    | (printable) "c \<notin> {34, 92, 8, 12, 10, 13, 9}" "32 \<le> c" "c \<le> 126"
    | (bmp) "c \<notin> {34, 92, 8, 12, 10, 13, 9}" "\<not> (32 \<le> c \<and> c \<le> 126)" "c < 65536"
    | (astral) "65536 \<le> c"
    by fastforce
  then show ?thesis
  proof cases
    case special
    then show ?thesis
      by (auto simp: escape_char_def BACKSLASH_def)
  next
    case printable
    then show ?thesis
      by (simp add: escape_char_def)
  next
    case bmp
    have e: "escape_char c = 92 # 117 # hex4str c"
      using bmp by (auto simp: escape_char_def)
    show ?thesis
    proof (cases "is_high_surrogate c \<and> take 2 t = [92, 117]")
      case True
      with assms(2) obtain u where "hex4 (take 4 (drop 2 t)) = Some u" "\<not> is_low_surrogate u"
        by blast
      then show ?thesis
        unfolding e using scanstring_u_escape_high [OF bmp(3)] by simp
    next
      case False
      then show ?thesis
        unfolding e using scanstring_u_escape [OF bmp(3)] by simp
    qed
  next
    case astral
    have e: "escape_char c =
        92 # 117 # hex4str (55296 + (c - 65536) div 1024 mod 1024)
          @ 92 # 117 # hex4str (56320 + (c - 65536) mod 1024)"
      using astral by (simp add: escape_char_def Let_def)
    show ?thesis
      unfolding e
      using scanstring_pair [OF high_surrogate_of(1,2) [OF astral assms(1)], of t]
        high_surrogate_of(3) [OF astral assms(1)]
      by simp
  qed
qed

lemma escape_char_shape:
  "(\<exists>e. escape_char c = [92, e] \<and> e \<noteq> 117)
   \<or> (escape_char c = [c] \<and> c \<noteq> 92)
   \<or> (c < 65536 \<and> escape_char c = 92 # 117 # hex4str c)
   \<or> (65536 \<le> c \<and> escape_char c =
        92 # 117 # hex4str (55296 + (c - 65536) div 1024 mod 1024)
          @ 92 # 117 # hex4str (56320 + (c - 65536) mod 1024))"
  by (simp add: escape_char_def Let_def)

lemma escaped_head:
  assumes "valid_str s" and "take 2 (concat (map escape_char s) @ 34 # rest) = [92, 117]"
  shows "\<exists>c s' u. s = c # s'
           \<and> hex4 (take 4 (drop 2 (concat (map escape_char s) @ 34 # rest))) = Some u
           \<and> (u = c \<or> is_high_surrogate u)"
proof (cases s)
  case Nil
  with assms(2) show ?thesis by simp
next
  case (Cons c s')
  let ?t = "concat (map escape_char s') @ 34 # rest"
  have v: "c < 1114112" using assms(1) by (simp add: valid_str_def Cons)
  have a: "take 2 (escape_char c @ ?t) = [92, 117]"
    using assms(2) by (simp add: Cons)
  have "\<exists>u. hex4 (take 4 (drop 2 (escape_char c @ ?t))) = Some u \<and> (u = c \<or> is_high_surrogate u)"
    using escape_char_shape [of c]
  proof (elim disjE exE conjE)
    fix e assume "escape_char c = [92, e]" "e \<noteq> 117"
    with a show ?thesis by simp
  next
    assume "escape_char c = [c]" "c \<noteq> 92"
    with a show ?thesis by simp
  next
    assume "c < 65536" "escape_char c = 92 # 117 # hex4str c"
    then show ?thesis by (simp add: hex4_hex4str)
  next
    assume astral: "65536 \<le> c"
      and e: "escape_char c =
        92 # 117 # hex4str (55296 + (c - 65536) div 1024 mod 1024)
          @ 92 # 117 # hex4str (56320 + (c - 65536) mod 1024)"
    have h: "is_high_surrogate (55296 + (c - 65536) div 1024 mod 1024)"
      by (rule high_surrogate_of(1) [OF astral v])
    then have "55296 + (c - 65536) div 1024 mod 1024 < 65536"
      by (simp add: is_high_surrogate_def)
    then show ?thesis
      using h by (simp add: e hex4_hex4str)
  qed
  then show ?thesis
    by (simp add: Cons)
qed

lemma surrogates_disjoint: "is_high_surrogate u \<Longrightarrow> \<not> is_low_surrogate u"
  by (simp add: is_high_surrogate_def is_low_surrogate_def)

lemma scanstring_escaped:
  assumes "valid_str s" and "surrogate_pair_free s"
  shows "scanstring (concat (map escape_char s) @ 34 # rest) = Some (s, rest)"
  using assms
proof (induction s)
  case Nil
  show ?case by simp
next
  case (Cons c s)
  let ?t = "concat (map escape_char s) @ 34 # rest"
  have v: "c < 1114112" "valid_str s"
    using Cons.prems(1) by (simp_all add: valid_str_def)
  have f: "surrogate_pair_free s"
    using Cons.prems(2) by (cases s) simp_all
  have IH: "scanstring ?t = Some (s, rest)"
    by (rule Cons.IH [OF v(2) f])
  have "\<exists>u. hex4 (take 4 (drop 2 ?t)) = Some u \<and> \<not> is_low_surrogate u"
    if "is_high_surrogate c" and "take 2 ?t = [92, 117]"
  proof -
    from escaped_head [OF v(2) that(2)] obtain c2 s' u where
      s: "s = c2 # s'" and u: "hex4 (take 4 (drop 2 ?t)) = Some u"
      and d: "u = c2 \<or> is_high_surrogate u"
      by blast
    have "\<not> is_low_surrogate c2"
      using Cons.prems(2) that(1) by (simp add: s)
    with d surrogates_disjoint have "\<not> is_low_surrogate u" by blast
    with u show ?thesis by blast
  qed
  then have "scanstring (escape_char c @ ?t) = append_char c (scanstring ?t)"
    by (intro scanstring_escape_char v(1)) blast
  then show ?case
    by (simp add: IH append_char_def)
qed

lemma scan_once_string:
  assumes "valid_str s" and "surrogate_pair_free s"
  shows "scan_once (Suc n) d (encode_basestring_ascii s @ rest) = Scanned (JString s) rest"
  using scanstring_escaped [OF assms, of rest]
  by (simp add: encode_basestring_ascii_def)

lemma skip_ws_simps [simp]:
  "skip_ws [] = []"
  "skip_ws (34 # r) = 34 # r"
  "skip_ws (44 # r) = 44 # r"
  "skip_ws (91 # r) = 91 # r"
  "skip_ws (93 # r) = 93 # r"
  "skip_ws (32 # r) = skip_ws r"
  by (simp_all add: skip_ws_def is_ws_def)

lemma join_items_head:
  "\<exists>r. join_items (map encode_basestring_ascii (x # xs)) = 34 # r"
  by (cases xs) (simp_all add: encode_basestring_ascii_def)

lemma length_join_items:
  "length xs \<le> length (join_items (map encode_basestring_ascii xs))"
  by (induction xs rule: join_items.induct) (simp_all add: encode_basestring_ascii_def)

lemma JSONArray_loop_last:
  assumes "scan_once n d s = Scanned v (93 # rest)"
  shows "JSONArray_loop (Suc n) d s = Scanned [v] rest"
  using assms by simp

lemma JSONArray_loop_step:
  assumes "scan_once n d s = Scanned v (44 # 32 # r)" and "skip_ws r = r"
    and "JSONArray_loop n d r = Scanned vs rest"
  shows "JSONArray_loop (Suc n) d s = Scanned (v # vs) rest"
  using assms by simp

lemma JSONArray_loop_items:
  assumes "\<forall>s \<in> set (x # xs). valid_str s \<and> surrogate_pair_free s" and "length xs < n"
  shows "JSONArray_loop (Suc n) d
           (join_items (map encode_basestring_ascii (x # xs)) @ 93 # rest)
         = Scanned (map JString (x # xs)) rest"
  using assms
proof (induction xs arbitrary: x n)
  case Nil
  then obtain k where n: "n = Suc k" by (cases n) auto
  have "scan_once (Suc k) d (encode_basestring_ascii x @ 93 # rest)
      = Scanned (JString x) (93 # rest)"
    using Nil.prems(1) by (intro scan_once_string) simp_all
  then have "JSONArray_loop (Suc (Suc k)) d (encode_basestring_ascii x @ 93 # rest)
      = Scanned [JString x] rest"
    by (rule JSONArray_loop_last)
  then show ?case
    by (simp add: n)
next
  case (Cons y ys)
  then obtain k where n: "n = Suc k" and k: "length ys < k" by (cases n) auto
  let ?r = "join_items (map encode_basestring_ascii (y # ys)) @ 93 # rest"
  have x: "scan_once (Suc k) d (encode_basestring_ascii x @ 44 # 32 # ?r)
      = Scanned (JString x) (44 # 32 # ?r)"
    using Cons.prems(1) by (intro scan_once_string) simp_all
  obtain r' where h: "join_items (map encode_basestring_ascii (y # ys)) = 34 # r'"
    using join_items_head by blast
  have s: "skip_ws ?r = ?r"
    unfolding h by simp
  have IH: "JSONArray_loop (Suc k) d ?r = Scanned (map JString (y # ys)) rest"
    using Cons.prems(1) k by (intro Cons.IH) simp_all
  have "JSONArray_loop (Suc (Suc k)) d (encode_basestring_ascii x @ 44 # 32 # ?r)
      = Scanned (JString x # map JString (y # ys)) rest"
    using x s IH by (rule JSONArray_loop_step)
  then show ?case
    by (simp add: n)
qed

lemma nesting_limit_Suc: "nesting_limit = Suc 993"
  by (simp add: nesting_limit_def)

lemma scan_once_empty_array: "scan_once (Suc n) (Suc d) [91, 93] = Scanned (JArray []) []"
  by simp

lemma scan_once_array:
  assumes "JSONArray_loop n d (34 # r) = Scanned vs rest"
  shows "scan_once (Suc n) (Suc d) (91 # 34 # r) = Scanned (JArray vs) rest"
  using assms by simp

lemma json_loads_scanned:
  assumes "\<not> starts_with [65279] s" and "skip_ws s = s"
    and "scan_once (Suc (2 * length s)) nesting_limit s = Scanned v []"
  shows "json_loads s = Inr v"
  using assms by (simp add: json_loads_def)

lemma json_loads_dumps:
  assumes "\<forall>s \<in> set xs. valid_str s \<and> surrogate_pair_free s"
  shows "json_loads (json_dumps xs) = Inr (JArray (map JString xs))"
proof -
  define s where "s = json_dumps xs"
  have not_bom: "\<not> starts_with [65279] s"
    by (simp add: s_def json_dumps_def starts_with_def)
  have ws: "skip_ws s = s"
    by (simp add: s_def json_dumps_def)
  have scan: "scan_once (Suc (2 * length s)) nesting_limit s
      = Scanned (JArray (map JString xs)) []"
  proof (cases xs)
    case Nil
    then have "s = [91, 93]" by (simp add: s_def json_dumps_def)
    show ?thesis
      unfolding \<open>s = [91, 93]\<close> Nil list.map nesting_limit_Suc by (rule scan_once_empty_array)
  next
    case (Cons x xs')
    obtain r where h: "join_items (map encode_basestring_ascii (x # xs')) = 34 # r"
      using join_items_head by blast
    have s: "s = 91 # 34 # r @ [93]"
      by (simp add: s_def json_dumps_def Cons h [simplified])
    have l: "length xs \<le> length (34 # r)"
      using length_join_items [of xs] by (simp add: Cons h [simplified])
    then obtain k where k: "2 * length s = Suc k" and lk: "length xs' < k"
      by (cases "2 * length s") (auto simp: s Cons)
    have "JSONArray_loop (Suc k) 993
            (join_items (map encode_basestring_ascii (x # xs')) @ 93 # [])
          = Scanned (map JString (x # xs')) []"
      using assms lk by (intro JSONArray_loop_items) (simp_all add: Cons)
    then have "JSONArray_loop (Suc k) 993 (34 # r @ [93]) = Scanned (map JString xs) []"
      unfolding h Cons append_Cons .
    then have "scan_once (Suc (Suc k)) (Suc 993) (91 # 34 # r @ [93])
        = Scanned (JArray (map JString xs)) []"
      by (rule scan_once_array)
    then show ?thesis
      by (simp only: k s [symmetric] nesting_limit_Suc)
  qed
  show ?thesis
    using not_bom ws scan unfolding s_def by (rule json_loads_scanned)
qed

section \<open>Properties of the serialized list fields and of \<^verbatim>\<open>get_all_whys\<close>\<close>

lemma fold_whys:
  "fold (\<lambda>i whys.
           case g i of
             None \<Rightarrow> whys
           | Some why \<Rightarrow> if why = [] then whys else whys @ [JString why]) ns acc
   = acc @ map JString (filter (\<lambda>s. s \<noteq> []) (List.map_filter id (map g ns)))"
proof (induction ns arbitrary: acc)
  case Nil
  show ?case by (simp add: List.map_filter_simps)
next
  case (Cons n ns)
  show ?case
    by (cases "g n") (simp_all add: Cons.IH List.map_filter_simps)
qed

lemma upt_1_6: "[1..<6] = [1, 2, 3, 4, 5 :: nat]"
  by code_simp

lemma fixed_whys:
  "fold (\<lambda>i whys.
           case getattr_why self i of
             None \<Rightarrow> whys
           | Some why \<Rightarrow> if why = [] then whys else whys @ [JString why]) [1..<6] []
   = map JString (filter (\<lambda>s. s \<noteq> [])
       (List.map_filter id [why_1 self, why_2 self, why_3 self, why_4 self, why_5 self]))"
proof -
  have "map (getattr_why self) [1..<6]
      = [why_1 self, why_2 self, why_3 self, why_4 self, why_5 self]"
    unfolding upt_1_6 by (simp add: getattr_why_def)
  then show ?thesis
    unfolding fold_whys by simp
qed

lemma get_all_whys_decoded:
  assumes "get_additional_whys self = Inr (JArray xs)"
  shows "get_all_whys self
         = Inr (map JString (filter (\<lambda>s. s \<noteq> [])
             (List.map_filter id [why_1 self, why_2 self, why_3 self, why_4 self, why_5 self]))
             @ xs)"
proof (cases "additional_whys self")
  case None
  with assms show ?thesis
    unfolding get_all_whys_def fixed_whys Let_def by (simp add: get_additional_whys_def)
next
  case (Some blob)
  show ?thesis
  proof (cases "blob = []")
    case True
    with assms Some show ?thesis
      unfolding get_all_whys_def fixed_whys Let_def by (simp add: get_additional_whys_def)
  next
    case False
    show ?thesis
    proof (cases "json_loads blob")
      case (Inl e)
      with assms Some False show ?thesis
        unfolding get_all_whys_def fixed_whys Let_def
        by (simp add: get_additional_whys_def split: if_splits)
    next
      case (Inr obj)
      with assms Some False show ?thesis
        unfolding get_all_whys_def fixed_whys Let_def by (simp add: get_additional_whys_def)
    qed
  qed
qed

lemma json_dumps_not_empty: "json_dumps xs \<noteq> []"
  by (simp add: json_dumps_def)

lemma get_team_members_set:
  "get_team_members (set_team_members p xs) =
     (case json_loads (json_dumps xs) of
        Inr obj \<Rightarrow> Inr obj
      | Inl e \<Rightarrow> if e = JSONDecodeError then Inr (JArray []) else Inl e)"
  by (simp add: get_team_members_def set_team_members_def json_dumps_not_empty)

lemma get_additional_whys_set:
  "get_additional_whys (set_additional_whys fw xs) =
     (case json_loads (json_dumps xs) of
        Inr obj \<Rightarrow> Inr obj
      | Inl e \<Rightarrow> if e = JSONDecodeError then Inr (JArray []) else Inl e)"
  by (simp add: get_additional_whys_def set_additional_whys_def json_dumps_not_empty)

lemma get_causes_list_set:
  "get_causes_list (set_causes_list c xs) =
     (case json_loads (json_dumps xs) of
        Inr obj \<Rightarrow> Inr obj
      | Inl e \<Rightarrow> if e = JSONDecodeError then Inr (JArray []) else Inl e)"
  by (simp add: get_causes_list_def set_causes_list_def json_dumps_not_empty)

text \<open>
  C6, as amended. The claim: for every non-empty list of strings, the getter after the
  setter returns the list. It holds for every list of strings (the empty list too) in
  which no string has a high surrogate followed at once by a low surrogate: then each of
  \<^verbatim>\<open>get_team_members\<close>, \<^verbatim>\<open>get_additional_whys\<close> and \<^verbatim>\<open>get_causes_list\<close> returns
  the list that was set.
\<close>

theorem serialized_list_roundtrip:
  assumes "\<forall>s \<in> set xs. valid_str s \<and> surrogate_pair_free s"
  shows "get_team_members (set_team_members p xs) = Inr (JArray (map JString xs))
       \<and> get_additional_whys (set_additional_whys fw xs) = Inr (JArray (map JString xs))
       \<and> get_causes_list (set_causes_list c xs) = Inr (JArray (map JString xs))"
  unfolding get_team_members_set get_additional_whys_set get_causes_list_set
    json_loads_dumps [OF assms]
  by simp

lemma ascii_ok:
  "valid_str (str ''A'')" "surrogate_pair_free (str ''A'')"
  "valid_str (str ''C'')" "surrogate_pair_free (str ''C'')"
  "valid_str (str ''D'')" "surrogate_pair_free (str ''D'')"
  "valid_str []" "surrogate_pair_free []"
  by (simp_all add: valid_str_def str_def)

lemma ascii_names:
  "valid_str (str ''John Doe'')" "surrogate_pair_free (str ''John Doe'')"
  "valid_str (str ''Jane Smith'')" "surrogate_pair_free (str ''Jane Smith'')"
  by (simp_all add: valid_str_def str_def is_high_surrogate_def)

theorem serialized_list_roundtrip_witness:
  "get_team_members (set_team_members new_Project [str ''John Doe'', str ''Jane Smith''])
     = Inr (JArray [JString (str ''John Doe''), JString (str ''Jane Smith'')])
   \<and> get_additional_whys (set_additional_whys new_FiveWhys [str ''John Doe'', str ''Jane Smith''])
     = Inr (JArray [JString (str ''John Doe''), JString (str ''Jane Smith'')])
   \<and> get_causes_list (set_causes_list new_IshikawaCategory [str ''John Doe'', str ''Jane Smith''])
     = Inr (JArray [JString (str ''John Doe''), JString (str ''Jane Smith'')])"
proof -
  have "\<forall>s \<in> set [str ''John Doe'', str ''Jane Smith'']. valid_str s \<and> surrogate_pair_free s"
    using ascii_names by simp
  from serialized_list_roundtrip [OF this, of new_Project new_FiveWhys new_IshikawaCategory]
  show ?thesis by simp
qed

lemma json_dumps_surrogates:
  "json_dumps [[55357, 56832]]
   = [91, 34, 92, 117, 100, 56, 51, 100, 92, 117, 100, 101, 48, 48, 34, 93]"
  by (simp add: json_dumps_def encode_basestring_ascii_def escape_char_def hex4str_def
      hexdigit_def)

lemma scan_once_surrogates:
  "scan_once (Suc (Suc (Suc n))) (Suc d)
     [91, 34, 92, 117, 100, 56, 51, 100, 92, 117, 100, 101, 48, 48, 34, 93]
   = Scanned (JArray [JString [128512]]) []"
  by (simp add: hexval_def is_high_surrogate_def is_low_surrogate_def append_char_def)

lemma json_loads_surrogates:
  "json_loads (json_dumps [[55357, 56832]]) = Inr (JArray [JString [128512]])"
  unfolding json_dumps_surrogates
proof (rule json_loads_scanned)
  let ?t = "[91, 34, 92, 117, 100, 56, 51, 100, 92, 117, 100, 101, 48, 48, 34, 93] :: pystr"
  show "\<not> starts_with [65279] ?t" by (simp add: starts_with_def)
  show "skip_ws ?t = ?t" by simp
  have f: "2 * length ?t = Suc (Suc 30)" by simp
  show "scan_once (Suc (2 * length ?t)) nesting_limit ?t
      = Scanned (JArray [JString [128512]]) []"
    unfolding f nesting_limit_Suc by (rule scan_once_surrogates)
qed

text \<open>
  C6, as stated, fails: a string may hold the two code points \<^verbatim>\<open>U+D83D\<close> and
  \<^verbatim>\<open>U+DE00\<close>. \<^verbatim>\<open>json.dumps\<close> writes them as the two escapes
  \<^verbatim>\<open>\ud83d\ude00\<close>, and \<^verbatim>\<open>json.loads\<close> reads the two escapes as the single code point
  \<^verbatim>\<open>U+1F600\<close>: the getter returns a list with a different string.
\<close>

theorem surrogate_pair_not_restored:
  "get_team_members (set_team_members new_Project [[55357, 56832]])
     = Inr (JArray [JString [128512]])
   \<and> get_team_members (set_team_members new_Project [[55357, 56832]])
     \<noteq> Inr (JArray (map JString [[55357, 56832]]))"
  by (simp add: get_team_members_set json_loads_surrogates)

text \<open>
  C2. When the stored additional whys are a list \<open>xs\<close> (that is what
  \<^verbatim>\<open>get_additional_whys\<close> returns: the decoded list, or the empty list for an absent,
  empty or malformed blob), \<^verbatim>\<open>get_all_whys\<close> returns the slots \<^verbatim>\<open>why_1\<close> to
  \<^verbatim>\<open>why_5\<close> that are set and not empty, in this order, followed by \<open>xs\<close> in its order.
  With \<^verbatim>\<open>why_1 = "A"\<close>, \<^verbatim>\<open>why_3 = "C"\<close> and the additional whys \<^verbatim>\<open>["D"]\<close> the
  result is \<^verbatim>\<open>["A", "C", "D"]\<close> (the witness).
\<close>

theorem get_all_whys_order:
  assumes "get_additional_whys self = Inr (JArray xs)"
  shows "get_all_whys self
         = Inr (map JString (filter (\<lambda>s. s \<noteq> [])
             (List.map_filter id [why_1 self, why_2 self, why_3 self, why_4 self, why_5 self]))
             @ xs)"
  using assms by (rule get_all_whys_decoded)

lemma example_five_whys_additional:
  "get_additional_whys example_five_whys = Inr (JArray [JString (str ''D'')])"
proof -
  have "json_loads (json_dumps [str ''D'']) = Inr (JArray (map JString [str ''D'']))"
    by (rule json_loads_dumps) (simp add: ascii_ok)
  then show ?thesis
    by (simp add: example_five_whys_def get_additional_whys_set)
qed

theorem get_all_whys_order_witness:
  "get_additional_whys example_five_whys = Inr (JArray [JString (str ''D'')])
   \<and> get_all_whys example_five_whys
       = Inr [JString (str ''A''), JString (str ''C''), JString (str ''D'')]"
proof -
  have "str ''A'' \<noteq> []" "str ''C'' \<noteq> []" by (simp_all add: str_def)
  then show ?thesis
    using get_all_whys_order [OF example_five_whys_additional] example_five_whys_additional
    by (simp add: example_five_whys_def set_additional_whys_def new_FiveWhys_def
        List.map_filter_simps)
qed

text \<open>The exceptions of \<^verbatim>\<open>json.loads\<close> on a string.\<close>

lemma json_loads_error:
  assumes "json_loads s = Inl e"
  shows "e = JSONDecodeError \<or> e = ValueError \<or> e = RecursionError"
proof (cases "starts_with [65279] s")
  case True
  with assms show ?thesis by (simp add: json_loads_def)
next
  case False
  show ?thesis
  proof (cases "scan_once (2 * length s + 1) nesting_limit (skip_ws s)")
    case (Scanned obj rest)
    with assms False show ?thesis by (simp add: json_loads_def split: if_splits)
  next
    case Expecting
    with assms False show ?thesis by (simp add: json_loads_def)
  next
    case (Raised e')
    with assms False have "e = e'" by (simp add: json_loads_def)
    with Raised scan_raises show ?thesis by blast
  next
    case Unfinished
    with assms False json_loads_returns [of s] show ?thesis by (simp add: json_loads_def)
  qed
qed

text \<open>
  What the getters do with the three kinds of blob that the specification names: an
  absent blob, an empty one, and one that \<^verbatim>\<open>json.loads\<close> rejects with a
  \<^verbatim>\<open>JSONDecodeError\<close> give the empty list. A getter raises nothing but what
  \<^verbatim>\<open>json.loads\<close> raises besides \<^verbatim>\<open>JSONDecodeError\<close>.
\<close>

lemma getters_empty_list:
  "team_members p = None \<or> team_members p = Some []
     \<or> (\<exists>blob. team_members p = Some blob \<and> json_loads blob = Inl JSONDecodeError)
   \<Longrightarrow> get_team_members p = Inr (JArray [])"
  "additional_whys fw = None \<or> additional_whys fw = Some []
     \<or> (\<exists>blob. additional_whys fw = Some blob \<and> json_loads blob = Inl JSONDecodeError)
   \<Longrightarrow> get_additional_whys fw = Inr (JArray [])"
  "causes c = None \<or> causes c = Some []
     \<or> (\<exists>blob. causes c = Some blob \<and> json_loads blob = Inl JSONDecodeError)
   \<Longrightarrow> get_causes_list c = Inr (JArray [])"
  by (auto simp: get_team_members_def get_additional_whys_def get_causes_list_def)

lemma getters_raise_only:
  "get_team_members p = Inl e \<Longrightarrow> e = ValueError \<or> e = RecursionError"
  "get_additional_whys fw = Inl e \<Longrightarrow> e = ValueError \<or> e = RecursionError"
  "get_causes_list c = Inl e \<Longrightarrow> e = ValueError \<or> e = RecursionError"
  by (auto simp: get_team_members_def get_additional_whys_def get_causes_list_def
      split: option.splits sum.splits if_splits dest: json_loads_error)

lemma json_loads_expecting:
  assumes "\<not> starts_with [65279] s"
    and "scan_once (Suc (2 * length s)) nesting_limit (skip_ws s) = Expecting"
  shows "json_loads s = Inl JSONDecodeError"
  using assms by (simp add: json_loads_def)

lemma json_loads_raised:
  assumes "\<not> starts_with [65279] s"
    and "scan_once (Suc (2 * length s)) nesting_limit (skip_ws s) = Raised e"
  shows "json_loads s = Inl e"
  using assms by (simp add: json_loads_def)

lemma scan_once_not_json: "scan_once (Suc n) d (str ''not json'') = Expecting"
  by (simp add: str_def scan_constant_def starts_with_def match_number_def is_digit_def)

lemma json_loads_not_json: "json_loads (str ''not json'') = Inl JSONDecodeError"
proof (rule json_loads_expecting)
  show "\<not> starts_with [65279] (str ''not json'')"
    by (simp add: starts_with_def str_def)
  have "skip_ws (str ''not json'') = str ''not json''"
    by (simp add: skip_ws_def is_ws_def str_def)
  then show "scan_once (Suc (2 * length (str ''not json''))) nesting_limit
      (skip_ws (str ''not json'')) = Expecting"
    by (simp only: scan_once_not_json)
qed

lemma get_team_members_not_json:
  "get_team_members (new_Project\<lparr>team_members := Some (str ''not json'')\<rparr>) = Inr (JArray [])"
  by (rule getters_empty_list) (simp add: json_loads_not_json)

text \<open>An int literal of more than 4300 digits.\<close>

lemma match_number_nines:
  assumes "int_max_str_digits < Suc k"
  shows "match_number (replicate (Suc k) 57) = Raised ValueError"
  using assms
  by (simp add: match_number_def is_digit_def match_fraction_def match_exponent_def
      takeWhile_replicate dropWhile_replicate)

lemma scan_once_nines:
  assumes "int_max_str_digits < Suc k"
  shows "scan_once (Suc n) d (replicate (Suc k) 57) = Raised ValueError"
  using match_number_nines [OF assms]
  by (simp add: scan_constant_def starts_with_def str_def)

lemma json_loads_long_int: "json_loads long_int_blob = Inl ValueError"
proof -
  have k: "(4301::nat) = Suc 4300" by simp
  have b: "long_int_blob = replicate (Suc 4300) 57"
    unfolding long_int_blob_def by (simp only: k)
  have l: "int_max_str_digits < Suc 4300"
    by (simp add: int_max_str_digits_def)
  show ?thesis
  proof (rule json_loads_raised)
    show "\<not> starts_with [65279] long_int_blob"
      unfolding b by (simp add: starts_with_def)
    have "skip_ws long_int_blob = long_int_blob"
      unfolding b by (simp add: skip_ws_def is_ws_def)
    then show "scan_once (Suc (2 * length long_int_blob)) nesting_limit (skip_ws long_int_blob)
        = Raised ValueError"
      unfolding b by (simp only: scan_once_nines [OF l])
  qed
qed

text \<open>Arrays nested deeper than the interpreter allows.\<close>

lemma scan_once_brackets:
  assumes "d < k" and "2 * d < n"
  shows "scan_once n d (replicate k 91) = Raised RecursionError"
  using assms
proof (induction d arbitrary: n k)
  case 0
  then obtain n' k' where "n = Suc n'" "k = Suc k'"
    by (cases n; cases k) auto
  then show ?case by simp
next
  case (Suc d)
  then obtain n2 where n: "n = Suc (Suc n2)" and n2: "2 * d < n2"
    by (cases n; cases "n - 1") auto
  from Suc.prems obtain k2 where k: "k = Suc (Suc k2)" and k2: "d < Suc k2"
    by (cases k; cases "k - 1") auto
  have "scan_once n2 d (replicate (Suc k2) 91) = Raised RecursionError"
    using k2 n2 by (rule Suc.IH)
  then show ?case
    by (simp add: n k)
qed

lemma json_loads_deep: "json_loads deep_blob = Inl RecursionError"
proof (rule json_loads_raised)
  show "\<not> starts_with [65279] deep_blob"
    by (simp add: starts_with_def deep_blob_def)
  have "skip_ws deep_blob = deep_blob"
    by (simp add: skip_ws_def is_ws_def deep_blob_def dropWhile_replicate)
  moreover have "scan_once (Suc (2 * length deep_blob)) nesting_limit deep_blob
      = Raised RecursionError"
    unfolding deep_blob_def
    by (rule scan_once_brackets) (simp_all add: nesting_limit_def)
  ultimately show "scan_once (Suc (2 * length deep_blob)) nesting_limit (skip_ws deep_blob)
      = Raised RecursionError"
    by (simp only:)
qed

lemma blobs_not_empty: "long_int_blob \<noteq> []" "deep_blob \<noteq> []"
  by (simp_all add: long_int_blob_def deep_blob_def)

text \<open>
  C5. The claim: a getter never raises, and returns the empty list for an absent, empty
  or malformed blob. \<^verbatim>\<open>except json.JSONDecodeError\<close> catches the error of a text that
  is no JSON, but \<^verbatim>\<open>json.loads\<close> raises two more exceptions, which the getters let
  pass: on the blob of 4301 digits a \<^verbatim>\<open>ValueError\<close>, and on the blob of 1000 opening
  brackets, which is no JSON, a \<^verbatim>\<open>RecursionError\<close>. Each of the three getters raises on
  both blobs.
\<close>

theorem getters_raise:
  "get_team_members (new_Project\<lparr>team_members := Some long_int_blob\<rparr>) = Inl ValueError
   \<and> get_additional_whys (new_FiveWhys\<lparr>additional_whys := Some long_int_blob\<rparr>)
       = Inl ValueError
   \<and> get_causes_list (new_IshikawaCategory\<lparr>causes := Some long_int_blob\<rparr>) = Inl ValueError
   \<and> get_team_members (new_Project\<lparr>team_members := Some deep_blob\<rparr>) = Inl RecursionError
   \<and> get_additional_whys (new_FiveWhys\<lparr>additional_whys := Some deep_blob\<rparr>)
       = Inl RecursionError
   \<and> get_causes_list (new_IshikawaCategory\<lparr>causes := Some deep_blob\<rparr>) = Inl RecursionError"
  by (simp add: get_team_members_def get_additional_whys_def get_causes_list_def
      blobs_not_empty json_loads_long_int json_loads_deep)





end
